theory Spec2Isabelle
  imports Main
begin

section \<open>Run-time values\<close>

text \<open>
  The TypeScript annotations of the sources are erased before the program runs, and the
  values that reach its functions come from server responses, from the navigation state and
  from the browser's storage without any check. The model therefore works on run-time
  values. Strings are character lists; numbers are restricted to integers (the prices of
  this program are whole units), so fractional numbers, NaN and the infinities are outside
  the model.
\<close>

datatype jsval =
    JUndefined
  | JNull
  | JBool bool
  | JNum int
  | JStr string
  | JArr "jsval list"
  | JObj "(string \<times> jsval) list"

text \<open>
  \<open>a === b\<close>. Primitive values are compared by value. Arrays and objects are compared by
  reference; every comparison of this program is against a string literal or between
  values that were received separately, so two such values are never the same reference.
\<close>

fun strict_eq :: "jsval \<Rightarrow> jsval \<Rightarrow> bool" where
  "strict_eq (JArr _) _ = False"
| "strict_eq (JObj _) _ = False"
| "strict_eq a b = (a = b)"

text \<open>Truthiness, as tested by \<open>if (v)\<close>, \<open>!v\<close> and \<open>a || b\<close>.\<close>

fun truthy :: "jsval \<Rightarrow> bool" where
  "truthy JUndefined = False"
| "truthy JNull = False"
| "truthy (JBool b) = b"
| "truthy (JNum n) = (n \<noteq> 0)"
| "truthy (JStr s) = (s \<noteq> [])"
| "truthy (JArr _) = True"
| "truthy (JObj _) = True"

text \<open>\<open>Array.isArray(v)\<close>.\<close>

fun isArray :: "jsval \<Rightarrow> bool" where
  "isArray (JArr xs) = True"
| "isArray v = False"

text \<open>
  A thrown value: an \<open>Error\<close> object with its message, or any other value. The handlers of
  this program read it with \<open>e instanceof Error ? e.message : fallback\<close>.
\<close>

datatype thrown = ErrorObj string | NonError jsval

fun message_or :: "thrown \<Rightarrow> string \<Rightarrow> string" where
  "message_or (ErrorObj m) fallback = m"
| "message_or (NonError v) fallback = fallback"

text \<open>
  Property read \<open>v.k\<close>. Reading a property of \<open>undefined\<close> or \<open>null\<close> raises a TypeError;
  a property that an object does not have is \<open>undefined\<close>. None of the property names that
  the program reads is defined on strings, numbers, booleans or arrays.
\<close>

definition cannot_read :: "string \<Rightarrow> string \<Rightarrow> thrown" where
  "cannot_read what k =
     ErrorObj (''Cannot read properties of '' @ what @ '' (reading '' @ [CHR 0x27] @ k @ [CHR 0x27] @ '')'')"

fun read_prop :: "jsval \<Rightarrow> string \<Rightarrow> thrown + jsval" where
  "read_prop JUndefined k = Inl (cannot_read ''undefined'' k)"
| "read_prop JNull k = Inl (cannot_read ''null'' k)"
| "read_prop (JObj kvs) k = Inr (case map_of kvs k of None \<Rightarrow> JUndefined | Some v \<Rightarrow> v)"
| "read_prop v k = Inr JUndefined"

text \<open>Optional chaining \<open>v?.k\<close>: \<open>undefined\<close> instead of the TypeError.\<close>

definition opt_prop :: "jsval \<Rightarrow> string \<Rightarrow> jsval" where
  "opt_prop v k = (case read_prop v k of Inl e \<Rightarrow> JUndefined | Inr x \<Rightarrow> x)"

text \<open>
  Conversion of a value to a string, as done by a template literal and by \<open>new Error(v)\<close>.
  Integers print as decimal numerals (the runtime does so below \<open>10^21\<close>).
\<close>

fun digits :: "nat \<Rightarrow> string" where
  "digits n = (if n < 10 then [char_of (48 + n)] else digits (n div 10) @ [char_of (48 + n mod 10)])"

declare digits.simps [simp del]

definition Number_toString :: "int \<Rightarrow> string" where
  "Number_toString n = (if n < 0 then CHR ''-'' # digits (nat (- n)) else digits (nat n))"

fun join :: "string \<Rightarrow> string list \<Rightarrow> string" where
  "join sep [] = []"
| "join sep [x] = x"
| "join sep (x # y # ys) = x @ sep @ join sep (y # ys)"

fun ToString :: "jsval \<Rightarrow> string" where
  "ToString JUndefined = ''undefined''"
| "ToString JNull = ''null''"
| "ToString (JBool b) = (if b then ''true'' else ''false'')"
| "ToString (JNum n) = Number_toString n"
| "ToString (JStr s) = s"
| "ToString (JArr xs) =
     join '','' (map (\<lambda>x. if x = JUndefined \<or> x = JNull then [] else ToString x) xs)"
| "ToString (JObj kvs) = ''[object Object]''"

section \<open>Pricing (Reservation.tsx, lines 39-53)\<close>

definition calculatePrice :: "jsval \<Rightarrow> jsval \<Rightarrow> int" where
  "calculatePrice demand timeSlot =
     (let demandPrice = (if strict_eq demand (JStr ''High'') then 400
                         else if strict_eq demand (JStr ''Medium'') then 300 else 200);
          nightSurcharge = (if strict_eq timeSlot (JStr ''Night'') then 100 else 0)
      in demandPrice + nightSurcharge)"

text \<open>The values of \<open>TIME_SLOTS\<close>.\<close>

definition TIME_SLOTS :: "jsval list" where
  "TIME_SLOTS = [JStr ''Morning'', JStr ''Afternoon'', JStr ''Evening'', JStr ''Night'']"

section \<open>The runtime's JSON object\<close>

text \<open>
  \<open>JSON.stringify\<close> and \<open>JSON.parse\<close> belong to the runtime, not to the repository. The
  program is modelled for any such pair of functions (see \<open>env\<close> below), and the
  definitions of this section are the standard ones on the values of the model:
  \<open>SerializeJSONProperty\<close> and \<open>QuoteJSONString\<close> follow ECMA-262, and \<open>ECMA_parse\<close> reads
  the JSON grammar. A number literal with a fraction or an exponent and a \<open>\u\<close> escape
  above \<open>00ff\<close> denote values that the model does not have; \<open>ECMA_parse\<close> has no result
  for them. Objects are association lists in the order in which the properties were
  created; the runtime enumerates keys that are array indices first, and no object of
  this program has such a key.
\<close>

definition hex_digit :: "nat \<Rightarrow> char" where
  "hex_digit d = ''0123456789abcdef'' ! d"

definition quote_char :: "char \<Rightarrow> string" where
  "quote_char c =
     (if c = CHR ''\"'' then [CHR 0x5C, CHR ''\"'']
      else if c = CHR 0x5C then [CHR 0x5C, CHR 0x5C]
      else if c = CHR 0x08 then [CHR 0x5C, CHR ''b'']
      else if c = CHR 0x0C then [CHR 0x5C, CHR ''f'']
      else if c = CHR 0x0A then [CHR 0x5C, CHR ''n'']
      else if c = CHR 0x0D then [CHR 0x5C, CHR ''r'']
      else if c = CHR 0x09 then [CHR 0x5C, CHR ''t'']
      else if (of_char c :: nat) < 32
        then [CHR 0x5C, CHR ''u'', CHR ''0'', CHR ''0'',
              hex_digit (of_char c div 16), hex_digit (of_char c mod 16)]
      else [c])"

definition QuoteJSONString :: "string \<Rightarrow> string" where
  "QuoteJSONString s = CHR ''\"'' # concat (map quote_char s) @ [CHR ''\"'']"

fun SerializeJSONProperty :: "jsval \<Rightarrow> string option" where
  "SerializeJSONProperty JUndefined = None"
| "SerializeJSONProperty JNull = Some ''null''"
| "SerializeJSONProperty (JBool b) = Some (if b then ''true'' else ''false'')"
| "SerializeJSONProperty (JNum n) = Some (Number_toString n)"
| "SerializeJSONProperty (JStr s) = Some (QuoteJSONString s)"
| "SerializeJSONProperty (JArr xs) =
     Some (''['' @ join '','' (map (\<lambda>x. case SerializeJSONProperty x of
                                          None \<Rightarrow> ''null'' | Some t \<Rightarrow> t) xs) @ '']'')"
| "SerializeJSONProperty (JObj kvs) =
     Some (''{'' @ join '','' (concat (map (\<lambda>kv. case SerializeJSONProperty (snd kv) of
                                          None \<Rightarrow> []
                                        | Some t \<Rightarrow> [QuoteJSONString (fst kv) @ '':'' @ t]) kvs))
           @ ''}'')"

definition is_ws :: "char \<Rightarrow> bool" where
  "is_ws c = (c = CHR '' '' \<or> c = CHR 0x09 \<or> c = CHR 0x0A \<or> c = CHR 0x0D)"

definition skip_ws :: "string \<Rightarrow> string" where
  "skip_ws = dropWhile is_ws"

definition is_digit :: "char \<Rightarrow> bool" where
  "is_digit c = (48 \<le> (of_char c :: nat) \<and> (of_char c :: nat) \<le> 57)"

definition hex_value :: "char \<Rightarrow> nat option" where
  "hex_value c =
     (let n = (of_char c :: nat) in
      if 48 \<le> n \<and> n \<le> 57 then Some (n - 48)
      else if 97 \<le> n \<and> n \<le> 102 then Some (n - 87)
      else if 65 \<le> n \<and> n \<le> 70 then Some (n - 55)
      else None)"

definition unescape :: "char \<Rightarrow> char option" where
  "unescape e =
     (if e = CHR ''\"'' then Some (CHR ''\"'')
      else if e = CHR 0x5C then Some (CHR 0x5C)
      else if e = CHR ''/'' then Some (CHR ''/'')
      else if e = CHR ''b'' then Some (CHR 0x08)
      else if e = CHR ''f'' then Some (CHR 0x0C)
      else if e = CHR ''n'' then Some (CHR 0x0A)
      else if e = CHR ''r'' then Some (CHR 0x0D)
      else if e = CHR ''t'' then Some (CHR 0x09)
      else None)"

definition hex4 :: "char \<Rightarrow> char \<Rightarrow> char \<Rightarrow> char \<Rightarrow> nat option" where
  "hex4 a b c d =
     (case (hex_value a, hex_value b, hex_value c, hex_value d) of
        (Some x, Some y, Some z, Some w) \<Rightarrow> Some (((x * 16 + y) * 16 + z) * 16 + w)
      | _ \<Rightarrow> None)"

definition cons_result :: "char \<Rightarrow> (string \<times> string) option \<Rightarrow> (string \<times> string) option" where
  "cons_result c r = map_option (\<lambda>(s, t). (c # s, t)) r"

fun parse_chars :: "string \<Rightarrow> (string \<times> string) option" where
  "parse_chars [] = None"
| "parse_chars (c # cs) =
     (if c = CHR ''\"'' then Some ([], cs)
      else if c = CHR 0x5C then
        (case cs of
           [] \<Rightarrow> None
         | e # r \<Rightarrow>
             if e = CHR ''u'' then
               (case r of
                  h1 # h2 # h3 # h4 # r' \<Rightarrow>
                    (case hex4 h1 h2 h3 h4 of
                       None \<Rightarrow> None
                     | Some n \<Rightarrow> if n < 256 then cons_result (char_of n) (parse_chars r') else None)
                | _ \<Rightarrow> None)
             else
               (case unescape e of
                  None \<Rightarrow> None
                | Some ch \<Rightarrow> cons_result ch (parse_chars r)))
      else if (of_char c :: nat) < 32 then None
      else cons_result c (parse_chars cs))"

definition digits_value :: "string \<Rightarrow> nat" where
  "digits_value ds = foldl (\<lambda>a c. 10 * a + (of_char c - 48)) 0 ds"

definition parse_number :: "string \<Rightarrow> (int \<times> string) option" where
  "parse_number cs =
     (let neg = (cs \<noteq> [] \<and> hd cs = CHR ''-'');
          r = (if neg then tl cs else cs);
          ds = takeWhile is_digit r;
          rest = dropWhile is_digit r
      in if ds = [] then None
         else if hd ds = CHR ''0'' \<and> length ds > 1 then None
         else if rest \<noteq> [] \<and> hd rest \<in> {CHR ''.'', CHR ''e'', CHR ''E''} then None
         else Some (if neg then - int (digits_value ds) else int (digits_value ds), rest))"

fun define_property :: "string \<Rightarrow> jsval \<Rightarrow> (string \<times> jsval) list \<Rightarrow> (string \<times> jsval) list" where
  "define_property k v [] = [(k, v)]"
| "define_property k v (p # ps) = (if fst p = k then (k, v) # ps else p # define_property k v ps)"

fun parse_value :: "nat \<Rightarrow> string \<Rightarrow> (jsval \<times> string) option"
and parse_elements :: "nat \<Rightarrow> jsval list \<Rightarrow> string \<Rightarrow> (jsval \<times> string) option"
and parse_members :: "nat \<Rightarrow> (string \<times> jsval) list \<Rightarrow> string \<Rightarrow> (jsval \<times> string) option"
where
  "parse_value 0 cs = None"
| "parse_value (Suc n) cs =
     (case cs of
        [] \<Rightarrow> None
      | c # r \<Rightarrow>
          if c = CHR ''\"'' then map_option (\<lambda>(s, t). (JStr s, t)) (parse_chars r)
          else if c = CHR ''['' then
            (case skip_ws r of
               [] \<Rightarrow> None
             | d # t \<Rightarrow> if d = CHR '']'' then Some (JArr [], t) else parse_elements n [] (d # t))
          else if c = CHR ''{'' then
            (case skip_ws r of
               [] \<Rightarrow> None
             | d # t \<Rightarrow> if d = CHR ''}'' then Some (JObj [], t) else parse_members n [] (d # t))
          else if take 4 cs = ''true'' then Some (JBool True, drop 4 cs)
          else if take 5 cs = ''false'' then Some (JBool False, drop 5 cs)
          else if take 4 cs = ''null'' then Some (JNull, drop 4 cs)
          else map_option (\<lambda>(i, t). (JNum i, t)) (parse_number cs))"
| "parse_elements 0 acc cs = None"
| "parse_elements (Suc n) acc cs =
     (case parse_value n cs of
        None \<Rightarrow> None
      | Some (v, r) \<Rightarrow>
          (case skip_ws r of
             [] \<Rightarrow> None
           | c # t \<Rightarrow>
               if c = CHR '','' then parse_elements n (acc @ [v]) (skip_ws t)
               else if c = CHR '']'' then Some (JArr (acc @ [v]), t)
               else None))"
| "parse_members 0 acc cs = None"
| "parse_members (Suc n) acc cs =
     (case cs of
        [] \<Rightarrow> None
      | c # r \<Rightarrow>
          if c \<noteq> CHR ''\"'' then None
          else
            (case parse_chars r of
               None \<Rightarrow> None
             | Some (k, r1) \<Rightarrow>
                 (case skip_ws r1 of
                    [] \<Rightarrow> None
                  | c1 # r2 \<Rightarrow>
                      if c1 \<noteq> CHR '':'' then None
                      else
                        (case parse_value n (skip_ws r2) of
                           None \<Rightarrow> None
                         | Some (v, r3) \<Rightarrow>
                             (case skip_ws r3 of
                                [] \<Rightarrow> None
                              | c3 # r4 \<Rightarrow>
                                  if c3 = CHR '','' then parse_members n (define_property k v acc) (skip_ws r4)
                                  else if c3 = CHR ''}'' then Some (JObj (define_property k v acc), r4)
                                  else None)))))"

definition ECMA_parse :: "string \<Rightarrow> jsval option" where
  "ECMA_parse text =
     (case parse_value (Suc (length text)) (skip_ws text) of
        None \<Rightarrow> None
      | Some (v, r) \<Rightarrow> if skip_ws r = [] then Some v else None)"

section \<open>The environment of the program\<close>

text \<open>
  The outcome of \<open>fetch\<close>: the promise rejects, or it resolves to a response with a status
  code and a body that \<open>res.json()\<close> either parses or rejects.
\<close>

datatype body = Unparsable string | Payload jsval

record response =
  status :: nat
  body :: body

definition ok :: "response \<Rightarrow> bool" where
  "ok res = (200 \<le> status res \<and> status res \<le> 299)"

datatype fetch_result = Rejects thrown | Resolves response

text \<open>
  The requests of the modelled operations. A request carries the value that the source
  serialises into its body or its query string.
\<close>

datatype request =
    GetStations
  | PostReserve jsval
  | GetReservations jsval

record env =
  JSON_parse :: "string \<Rightarrow> jsval option"
  JSON_stringify :: "jsval \<Rightarrow> string option"
  fetch :: "request \<Rightarrow> fetch_result"
  user :: jsval

text \<open>
  \<open>JSON_parse\<close> is \<open>None\<close> where \<open>JSON.parse\<close> raises a SyntaxError; \<open>JSON_stringify\<close> is
  \<open>None\<close> where \<open>JSON.stringify\<close> returns \<open>undefined\<close>. \<open>user\<close> is the user object of the
  authentication context, or \<open>null\<close>.
\<close>

section \<open>State\<close>

text \<open>\<open>localStorage\<close>: its entries, and whether it refuses access or writes.\<close>

record storage =
  items :: "string \<Rightarrow> string option"
  access_denied :: bool
  quota_exceeded :: bool

definition getItem :: "storage \<Rightarrow> string \<Rightarrow> thrown + string option" where
  "getItem s k = (if access_denied s then Inl (ErrorObj ''SecurityError'') else Inr (items s k))"

definition setItem :: "storage \<Rightarrow> string \<Rightarrow> string \<Rightarrow> thrown + storage" where
  "setItem s k v =
     (if access_denied s then Inl (ErrorObj ''SecurityError'')
      else if quota_exceeded s then Inl (ErrorObj ''QuotaExceededError'')
      else Inr (s\<lparr>items := (items s)(k \<mapsto> v)\<rparr>))"

definition removeItem :: "storage \<Rightarrow> string \<Rightarrow> thrown + storage" where
  "removeItem s k =
     (if access_denied s then Inl (ErrorObj ''SecurityError'')
      else Inr (s\<lparr>items := (items s)(k := None)\<rparr>))"

text \<open>
  The state variables of \<open>ReservationPage\<close> that the modelled operations use.
  \<open>stations_ref\<close> stands for the identity of the array held in \<open>stations\<close>: a dependency
  list compares arrays by reference.
\<close>

record page =
  stations :: "jsval list"
  stations_ref :: nat
  stationsLoading :: bool
  stationsError :: "string option"
  date :: string
  timeSlot :: string
  stationId :: jsval
  predictedDemand :: jsval
  isSubmitting :: bool
  submitError :: "string option"
  receiptOpen :: bool
  lastResponse :: jsval
  userReservations :: jsval
  loadingReservations :: bool

definition initial_page :: "string \<Rightarrow> page" where
  "initial_page today =
     \<lparr>stations = [], stations_ref = 0, stationsLoading = False, stationsError = None,
      date = today, timeSlot = ''Morning'', stationId = JStr [], predictedDemand = JStr ''Low'',
      isSubmitting = False, submitError = None, receiptOpen = False, lastResponse = JNull,
      userReservations = JArr [], loadingReservations = False\<rparr>"

text \<open>The state variables of \<open>LeafletMap\<close>.\<close>

record leaflet_map =
  map_stations :: "jsval list"
  map_isLoading :: bool
  map_error :: "string option"

text \<open>What the program does to the outside, in order.\<close>

datatype event =
    Fetch request
  | ConsoleError string thrown
  | SetLatestReservation jsval

text \<open>
  The provider holds its snapshot in a \<open>useState\<close> hook. \<open>latestReservationState\<close> is the
  state that React keeps for the hook: \<open>setLatestReservationState(r)\<close> only enqueues \<open>r\<close>
  there, and of several enqueued values the last one counts. \<open>latestReservation\<close> is the
  constant of the provider's last render, which the context hands to its consumers; it
  changes only when React renders the provider again.
\<close>

record world =
  page :: page
  leafletMap :: leaflet_map
  latestReservationState :: jsval
  latestReservation :: jsval
  localStorage :: storage
  trace :: "event list"

definition emit :: "event \<Rightarrow> world \<Rightarrow> world" where
  "emit e w = w\<lparr>trace := trace w @ [e]\<rparr>"

section \<open>ReservationProvider (contexts/ReservationContext)\<close>

definition STORAGE_KEY :: string where
  "STORAGE_KEY = ''ridewise_latest_reservation''"

text \<open>
  The effect that runs when the provider mounts. \<open>hydrate_try\<close> is the body of its
  \<open>try\<close> block, \<open>hydrate\<close> the whole effect, whose \<open>catch\<close> ignores whatever was raised.
  The state is \<open>null\<close> when the provider is created, and the effect enqueues what it has
  parsed.
\<close>

definition hydrate_try :: "env \<Rightarrow> world \<Rightarrow> thrown + world" where
  "hydrate_try env w =
     (case getItem (localStorage w) STORAGE_KEY of
        Inl e \<Rightarrow> Inl e
      | Inr None \<Rightarrow> Inr w
      | Inr (Some raw) \<Rightarrow>
          if raw = [] then Inr w
          else (case JSON_parse env raw of
                  None \<Rightarrow> Inl (ErrorObj ''SyntaxError'')
                | Some v \<Rightarrow> Inr (w\<lparr>latestReservationState := v\<rparr>)))"

definition hydrate :: "env \<Rightarrow> world \<Rightarrow> thrown + world" where
  "hydrate env w = (case hydrate_try env w of Inl e \<Rightarrow> Inr w | Inr w' \<Rightarrow> Inr w')"

text \<open>
  \<open>setLatestReservation(r)\<close>: \<open>setLatestReservationState(r)\<close> first, then the durable slot
  inside a \<open>try\<close> whose \<open>catch\<close> ignores storage failures. The constant that the consumers
  hold is not touched. \<open>setItem\<close> stores the string conversion
  of its argument, which is \<open>undefined\<close> when \<open>JSON.stringify\<close> returns that. The call is
  recorded in the trace with its argument.
\<close>

definition persist_try :: "env \<Rightarrow> jsval \<Rightarrow> storage \<Rightarrow> thrown + storage" where
  "persist_try env r s =
     (if truthy r
      then setItem s STORAGE_KEY (case JSON_stringify env r of None \<Rightarrow> ''undefined'' | Some t \<Rightarrow> t)
      else removeItem s STORAGE_KEY)"

definition setLatestReservation :: "env \<Rightarrow> jsval \<Rightarrow> world \<Rightarrow> world" where
  "setLatestReservation env r w =
     (let w1 = (emit (SetLatestReservation r) w)\<lparr>latestReservationState := r\<rparr>
      in case persist_try env r (localStorage w1) of
           Inl e \<Rightarrow> w1
         | Inr s \<Rightarrow> w1\<lparr>localStorage := s\<rparr>)"

text \<open>
  \<open>useReservation().latestReservation\<close>: every consumer of the context reads the constant
  of the provider's last render.
\<close>

definition useReservation :: "world \<Rightarrow> jsval" where
  "useReservation w = latestReservation w"

text \<open>
  A render of the provider: \<open>useState\<close> returns the state that React keeps, the memoised
  context value is rebuilt from it, and the consumers render with it.
\<close>

definition render_provider :: "world \<Rightarrow> world" where
  "render_provider w = w\<lparr>latestReservation := latestReservationState w\<rparr>"

text \<open>
  A new process: component state is created afresh, the storage of the browser profile is
  what the previous process left.
\<close>

definition startup :: "string \<Rightarrow> storage \<Rightarrow> world" where
  "startup today s =
     \<lparr>page = initial_page today,
      leafletMap = \<lparr>map_stations = [], map_isLoading = False, map_error = None\<rparr>,
      latestReservationState = JNull, latestReservation = JNull, localStorage = s, trace = []\<rparr>"

text \<open>
  The interface \<open>LatestReservation\<close>: the fields, their types, and which of them may be
  left out. A price is a whole number of units that the runtime represents exactly.
\<close>

definition field_ok :: "string \<Rightarrow> jsval \<Rightarrow> bool" where
  "field_ok k v =
     (if k = ''reservation_id'' \<or> k = ''station'' \<or> k = ''date'' \<or> k = ''station_id''
        then (case v of JStr s \<Rightarrow> True | _ \<Rightarrow> False)
      else if k = ''time_slot''
        then v \<in> {JStr ''Morning'', JStr ''Afternoon'', JStr ''Evening'', JStr ''Night''}
      else if k = ''price''
        then (case v of JNum n \<Rightarrow> 0 \<le> n \<and> n \<le> 9007199254740991 | _ \<Rightarrow> False)
      else if k = ''status'' then v = JStr ''Confirmed''
      else if k = ''predicted_demand''
        then v \<in> {JStr ''High'', JStr ''Medium'', JStr ''Low''}
      else False)"

definition is_LatestReservation :: "jsval \<Rightarrow> bool" where
  "is_LatestReservation v =
     (case v of
        JObj kvs \<Rightarrow>
          distinct (map fst kvs) \<and> list_all (\<lambda>kv. field_ok (fst kv) (snd kv)) kvs \<and>
          list_all (\<lambda>k. k \<in> set (map fst kvs))
            [''reservation_id'', ''station'', ''date'', ''time_slot'', ''price'', ''status'']
      | _ \<Rightarrow> False)"

section \<open>ReservationPage\<close>

definition upd_page :: "(page \<Rightarrow> page) \<Rightarrow> world \<Rightarrow> world" where
  "upd_page f w = w\<lparr>page := f (page w)\<rparr>"

definition status_text :: "string \<Rightarrow> response \<Rightarrow> string" where
  "status_text what res = what @ '' (status '' @ digits (status res) @ '')''"

text \<open>\<open>await res.json()\<close>.\<close>

definition json_of :: "response \<Rightarrow> thrown + jsval" where
  "json_of res = (case body res of Unparsable m \<Rightarrow> Inl (ErrorObj m) | Payload v \<Rightarrow> Inr v)"

text \<open>\<open>await res.json().catch(() => ({}))\<close>.\<close>

definition json_or_empty :: "response \<Rightarrow> jsval" where
  "json_or_empty res = (case json_of res of Inl e \<Rightarrow> JObj [] | Inr v \<Rightarrow> v)"

subsection \<open>fetchUserReservations (Reservation.tsx, lines 89-102)\<close>

definition fetchUserReservations_try :: "env \<Rightarrow> world \<Rightarrow> world \<times> thrown option" where
  "fetchUserReservations_try env w =
     (let w1 = upd_page (\<lambda>p. p\<lparr>loadingReservations := True\<rparr>) w;
          req = GetReservations (opt_prop (user env) ''email'');
          w2 = emit (Fetch req) w1
      in case fetch env req of
           Rejects e \<Rightarrow> (w2, Some e)
         | Resolves res \<Rightarrow>
             if \<not> ok res then (w2, Some (ErrorObj (status_text ''Failed to fetch reservations'' res)))
             else (case json_of res of
                     Inl e \<Rightarrow> (w2, Some e)
                   | Inr data \<Rightarrow>
                       (case read_prop data ''reservations'' of
                          Inl e \<Rightarrow> (w2, Some e)
                        | Inr rs \<Rightarrow>
                            (upd_page (\<lambda>p. p\<lparr>userReservations :=
                                              (if truthy rs then rs else JArr [])\<rparr>) w2,
                             None))))"

definition fetchUserReservations :: "env \<Rightarrow> world \<Rightarrow> world" where
  "fetchUserReservations env w =
     (if \<not> truthy (opt_prop (user env) ''email'') then w
      else
        (let (w1, raised) = fetchUserReservations_try env w;
             w2 = (case raised of
                     None \<Rightarrow> w1
                   | Some e \<Rightarrow> emit (ConsoleError ''Failed to fetch reservations:'' e) w1)
         in upd_page (\<lambda>p. p\<lparr>loadingReservations := False\<rparr>) w2))"

subsection \<open>loadStations (Reservation.tsx, lines 184-201)\<close>

definition loadStations_try :: "env \<Rightarrow> world \<Rightarrow> world \<times> thrown option" where
  "loadStations_try env w =
     (let w1 = upd_page (\<lambda>p. p\<lparr>stationsLoading := True, stationsError := None\<rparr>) w;
          w2 = emit (Fetch GetStations) w1
      in case fetch env GetStations of
           Rejects e \<Rightarrow> (w2, Some e)
         | Resolves res \<Rightarrow>
             if \<not> ok res then (w2, Some (ErrorObj (status_text ''Failed to load stations'' res)))
             else (case json_of res of
                     Inl e \<Rightarrow> (w2, Some e)
                   | Inr data \<Rightarrow>
                       (case data of
                          JArr xs \<Rightarrow>
                            (upd_page (\<lambda>p. p\<lparr>stations := xs,
                                              stations_ref := Suc (stations_ref p)\<rparr>) w2,
                             None)
                        | _ \<Rightarrow> (w2, Some (ErrorObj ''Invalid stations response format'')))))"

definition loadStations :: "env \<Rightarrow> world \<Rightarrow> world" where
  "loadStations env w =
     (let (w1, raised) = loadStations_try env w;
          w2 = (case raised of
                  None \<Rightarrow> w1
                | Some e \<Rightarrow>
                    upd_page (\<lambda>p. p\<lparr>stationsError :=
                                      Some (message_or e ''Failed to load stations'')\<rparr>) w1)
      in upd_page (\<lambda>p. p\<lparr>stationsLoading := False\<rparr>) w2)"

subsection \<open>handleReserve (Reservation.tsx, lines 244-303)\<close>

definition reserve_request :: "env \<Rightarrow> page \<Rightarrow> request" where
  "reserve_request env p =
     PostReserve (JObj [(''date'', JStr (date p)), (''time_slot'', JStr (timeSlot p)),
                        (''station_id'', stationId p), (''predicted_demand'', predictedDemand p),
                        (''user_email'', opt_prop (user env) ''email'')])"

text \<open>
  The object literal \<open>latest\<close>. Its first property read raises when the response data is
  \<open>null\<close>; the later ones read the same value.
\<close>

definition latest_of :: "jsval \<Rightarrow> page \<Rightarrow> thrown + jsval" where
  "latest_of confirmed p =
     (case read_prop confirmed ''reservation_id'' of
        Inl e \<Rightarrow> Inl e
      | Inr rid \<Rightarrow>
          Inr (JObj [(''reservation_id'', rid),
                     (''station'', opt_prop confirmed ''station''),
                     (''date'', opt_prop confirmed ''date''),
                     (''time_slot'', opt_prop confirmed ''time_slot''),
                     (''price'', opt_prop confirmed ''price''),
                     (''status'', opt_prop confirmed ''status''),
                     (''predicted_demand'', predictedDemand p),
                     (''station_id'', stationId p)]))"

definition handleReserve_try :: "env \<Rightarrow> page \<Rightarrow> world \<Rightarrow> world \<times> thrown option" where
  "handleReserve_try env p w =
     (let w1 = upd_page (\<lambda>q. q\<lparr>isSubmitting := True\<rparr>) w;
          req = reserve_request env p;
          w2 = emit (Fetch req) w1
      in case fetch env req of
           Rejects e \<Rightarrow> (w2, Some e)
         | Resolves res \<Rightarrow>
             (let data = json_or_empty res
              in if \<not> ok res then
                   (case read_prop data ''error'' of
                      Inl e \<Rightarrow> (w2, Some e)
                    | Inr err \<Rightarrow>
                        (w2, Some (ErrorObj (if truthy err then ToString err
                                             else status_text ''Reservation failed'' res))))
                 else
                   (let w3 = upd_page (\<lambda>q. q\<lparr>lastResponse := data, receiptOpen := True\<rparr>) w2
                    in case latest_of data p of
                         Inl e \<Rightarrow> (w3, Some e)
                       | Inr latest \<Rightarrow>
                           (fetchUserReservations env (setLatestReservation env latest w3),
                            None))))"

definition handleReserve :: "env \<Rightarrow> world \<Rightarrow> world" where
  "handleReserve env w =
     (let p = page w;
          w0 = upd_page (\<lambda>q. q\<lparr>submitError := None\<rparr>) w
      in if date p = [] then
           upd_page (\<lambda>q. q\<lparr>submitError := Some ''Please select a date.''\<rparr>) w0
         else if timeSlot p = [] then
           upd_page (\<lambda>q. q\<lparr>submitError := Some ''Please select a time slot.''\<rparr>) w0
         else if \<not> truthy (stationId p) then
           upd_page (\<lambda>q. q\<lparr>submitError := Some ''Please select a pickup station.''\<rparr>) w0
         else
           (let (w1, raised) = handleReserve_try env p w0;
                w2 = (case raised of
                        None \<Rightarrow> w1
                      | Some e \<Rightarrow>
                          upd_page (\<lambda>q. q\<lparr>submitError :=
                                            Some (message_or e ''Failed to reserve bike'')\<rparr>) w1)
            in upd_page (\<lambda>q. q\<lparr>isSubmitting := False\<rparr>) w2))"

subsection \<open>The effects that fill in the station and the demand (Reservation.tsx, lines 203-218)\<close>

text \<open>
  \<open>location.state\<close> with the identity of the navigation that created it: a dependency
  list compares objects by reference and primitive values by value.
\<close>

record location =
  nav_key :: nat
  nav_state :: jsval

definition same_state :: "location \<Rightarrow> location \<Rightarrow> bool" where
  "same_state a b =
     (case nav_state a of
        JObj _ \<Rightarrow> (case nav_state b of JObj _ \<Rightarrow> nav_key a = nav_key b | _ \<Rightarrow> False)
      | JArr _ \<Rightarrow> (case nav_state b of JArr _ \<Rightarrow> nav_key a = nav_key b | _ \<Rightarrow> False)
      | v \<Rightarrow> nav_state b = v)"

text \<open>The effect with the dependency list \<open>[location.state]\<close>.\<close>

definition prefill :: "jsval \<Rightarrow> page \<Rightarrow> page" where
  "prefill state p =
     (let p1 = (if truthy (opt_prop state ''station_id'')
                then p\<lparr>stationId := opt_prop state ''station_id''\<rparr> else p)
      in if truthy (opt_prop state ''demand_level'')
         then p1\<lparr>predictedDemand := opt_prop state ''demand_level''\<rparr> else p1)"

text \<open>\<open>stations.find((s) => s.station_id === stationId)\<close>, \<open>undefined\<close> when none matches.\<close>

fun find_station :: "jsval list \<Rightarrow> jsval \<Rightarrow> thrown + jsval" where
  "find_station [] sid = Inr JUndefined"
| "find_station (s # ss) sid =
     (case read_prop s ''station_id'' of
        Inl e \<Rightarrow> Inl e
      | Inr v \<Rightarrow> if strict_eq v sid then Inr s else find_station ss sid)"

text \<open>
  What the callback of \<open>find\<close> returns for an entry \<open>s\<close> of the catalog and the station
  id \<open>v\<close>: true, or false without raising.
\<close>

definition has_station_id :: "jsval \<Rightarrow> jsval \<Rightarrow> bool" where
  "has_station_id v s = (case read_prop s ''station_id'' of Inl e \<Rightarrow> False | Inr u \<Rightarrow> strict_eq u v)"

definition has_other_id :: "jsval \<Rightarrow> jsval \<Rightarrow> bool" where
  "has_other_id v s = (case read_prop s ''station_id'' of Inl e \<Rightarrow> False | Inr u \<Rightarrow> \<not> strict_eq u v)"

text \<open>
  The effect with the dependency list \<open>[stationId, stations]\<close>. It reads the state of the
  render it belongs to (\<open>r\<close>) and its update is applied to the state that the updates of
  the earlier effect have produced (\<open>p\<close>).
\<close>

definition autofill :: "page \<Rightarrow> page \<Rightarrow> thrown + page" where
  "autofill r p =
     (case find_station (stations r) (stationId r) of
        Inl e \<Rightarrow> Inl e
      | Inr selected \<Rightarrow>
          if truthy selected
          then Inr (p\<lparr>predictedDemand := opt_prop selected ''demand_level''\<rparr>)
          else Inr p)"

text \<open>
  The dependencies of the last run of the two effects, \<open>None\<close> before the component has
  mounted.
\<close>

record hooks =
  prefill_deps :: "location option"
  autofill_deps :: "(jsval \<times> nat) option"

definition unmounted :: hooks where
  "unmounted = \<lparr>prefill_deps = None, autofill_deps = None\<rparr>"

text \<open>
  What follows one render of the page: each effect runs if it has not run before or one
  of its dependencies has changed.
\<close>

definition commit_effects :: "location \<Rightarrow> hooks \<times> page \<Rightarrow> thrown + hooks \<times> page" where
  "commit_effects loc hp =
     (let h = fst hp; r = snd hp;
          run_prefill = (case prefill_deps h of None \<Rightarrow> True | Some l \<Rightarrow> \<not> same_state l loc);
          run_autofill = (case autofill_deps h of
                            None \<Rightarrow> True
                          | Some d \<Rightarrow> d \<noteq> (stationId r, stations_ref r));
          h' = \<lparr>prefill_deps = Some loc, autofill_deps = Some (stationId r, stations_ref r)\<rparr>;
          p1 = (if run_prefill then prefill (nav_state loc) r else r)
      in if run_autofill
         then (case autofill r p1 of Inl e \<Rightarrow> Inl e | Inr p2 \<Rightarrow> Inr (h', p2))
         else Inr (h', p1))"

text \<open>\<open>onValueChange={(v) => setStationId(v)}\<close> of the station select.\<close>

definition select_station :: "jsval \<Rightarrow> hooks \<times> page \<Rightarrow> hooks \<times> page" where
  "select_station v hp = (fst hp, (snd hp)\<lparr>stationId := v\<rparr>)"

text \<open>\<open>setStations(data)\<close> at the end of a successful \<open>loadStations\<close>.\<close>

definition stations_loaded :: "jsval list \<Rightarrow> hooks \<times> page \<Rightarrow> hooks \<times> page" where
  "stations_loaded xs hp = (fst hp, (snd hp)\<lparr>stations := xs, stations_ref := Suc (stations_ref (snd hp))\<rparr>)"

text \<open>
  What happens to the mounted page, in order: a choice in the station select, the arrival
  of the station catalog, or a render of the page, after which the effects are committed.
\<close>

datatype ui_event = Select jsval | Loaded "jsval list" | Render

fun interaction :: "location \<Rightarrow> ui_event list \<Rightarrow> hooks \<times> page \<Rightarrow> thrown + hooks \<times> page" where
  "interaction loc [] hp = Inr hp"
| "interaction loc (Select v # es) hp = interaction loc es (select_station v hp)"
| "interaction loc (Loaded xs # es) hp = interaction loc es (stations_loaded xs hp)"
| "interaction loc (Render # es) hp =
     (case commit_effects loc hp of Inl e \<Rightarrow> Inl e | Inr hp' \<Rightarrow> interaction loc es hp')"

fun selections :: "ui_event list \<Rightarrow> jsval list" where
  "selections [] = []"
| "selections (Select v # es) = v # selections es"
| "selections (e # es) = selections es"

fun catalogs :: "ui_event list \<Rightarrow> jsval list list" where
  "catalogs [] = []"
| "catalogs (Loaded xs # es) = xs # catalogs es"
| "catalogs (e # es) = catalogs es"

section \<open>LeafletMap (components/dashboard/LeafletMap: fetchStations, handleReserve)\<close>

definition upd_map :: "(leaflet_map \<Rightarrow> leaflet_map) \<Rightarrow> world \<Rightarrow> world" where
  "upd_map f w = w\<lparr>leafletMap := f (leafletMap w)\<rparr>"

definition fetchStations_try :: "env \<Rightarrow> world \<Rightarrow> world \<times> thrown option" where
  "fetchStations_try env w =
     (let w1 = upd_map (\<lambda>m. m\<lparr>map_isLoading := True, map_error := None\<rparr>) w;
          w2 = emit (Fetch GetStations) w1
      in case fetch env GetStations of
           Rejects e \<Rightarrow> (w2, Some e)
         | Resolves res \<Rightarrow>
             if \<not> ok res then (w2, Some (ErrorObj (status_text ''Failed to load stations'' res)))
             else (case json_of res of
                     Inl e \<Rightarrow> (w2, Some e)
                   | Inr data \<Rightarrow>
                       (case data of
                          JArr xs \<Rightarrow> (upd_map (\<lambda>m. m\<lparr>map_stations := xs\<rparr>) w2, None)
                        | _ \<Rightarrow> (w2, Some (ErrorObj ''Invalid stations response format'')))))"

definition fetchStations :: "env \<Rightarrow> world \<Rightarrow> world" where
  "fetchStations env w =
     (let (w1, raised) = fetchStations_try env w;
          w2 = (case raised of
                  None \<Rightarrow> w1
                | Some e \<Rightarrow>
                    upd_map (\<lambda>m. m\<lparr>map_error :=
                                     Some (message_or e ''Failed to load bike stations'')\<rparr>)
                      (emit (ConsoleError ''[Map] Error fetching stations:'' e) w1))
      in upd_map (\<lambda>m. m\<lparr>map_isLoading := False\<rparr>) w2)"

text \<open>
  \<open>handleReserve(station)\<close> of the map: the navigation state handed to the reservation
  page.
\<close>

definition handoff :: "jsval \<Rightarrow> thrown + jsval" where
  "handoff station =
     (case read_prop station ''station_id'' of
        Inl e \<Rightarrow> Inl e
      | Inr sid \<Rightarrow> Inr (JObj [(''station_id'', sid),
                               (''demand_level'', opt_prop station ''demand_level'')]))"

text \<open>A browser: the standard JSON object, a server and the signed-in user.\<close>

definition browser :: "(request \<Rightarrow> fetch_result) \<Rightarrow> jsval \<Rightarrow> env" where
  "browser server u =
     \<lparr>JSON_parse = ECMA_parse, JSON_stringify = SerializeJSONProperty, fetch = server, user = u\<rparr>"

definition empty_storage :: storage where
  "empty_storage = \<lparr>items = (\<lambda>k. None), access_denied = False, quota_exceeded = False\<rparr>"

text \<open>The interface \<open>Station\<close>.\<close>

definition is_Station :: "jsval \<Rightarrow> bool" where
  "is_Station v =
     (case v of
        JObj kvs \<Rightarrow>
          distinct (map fst kvs) \<and>
          (case map_of kvs ''station_id'' of Some (JStr s) \<Rightarrow> True | _ \<Rightarrow> False) \<and>
          (case map_of kvs ''station_name'' of Some (JStr s) \<Rightarrow> True | _ \<Rightarrow> False) \<and>
          (case map_of kvs ''lat'' of Some (JNum n) \<Rightarrow> True | _ \<Rightarrow> False) \<and>
          (case map_of kvs ''lng'' of Some (JNum n) \<Rightarrow> True | _ \<Rightarrow> False) \<and>
          (case map_of kvs ''available_bikes'' of Some (JNum n) \<Rightarrow> 0 \<le> n | _ \<Rightarrow> False) \<and>
          (case map_of kvs ''demand_level'' of
             Some d \<Rightarrow> d \<in> {JStr ''High'', JStr ''Medium'', JStr ''Low''} | None \<Rightarrow> False)
      | _ \<Rightarrow> False)"

section \<open>Notions used in the statements and proofs\<close>


text \<open>
  Values whose JSON text is a string literal or an unsigned numeral, the text of a value
  and of an object member, and what may follow a numeral inside an object.
\<close>

definition flat :: "jsval \<Rightarrow> bool" where
  "flat v = (case v of JStr s \<Rightarrow> True | JNum n \<Rightarrow> 0 \<le> n | _ \<Rightarrow> False)"

definition value_text :: "jsval \<Rightarrow> string" where
  "value_text v = (case SerializeJSONProperty v of None \<Rightarrow> [] | Some t \<Rightarrow> t)"

definition member_text :: "string \<times> jsval \<Rightarrow> string" where
  "member_text kv = QuoteJSONString (fst kv) @ '':'' @ value_text (snd kv)"

definition ends_number :: "string \<Rightarrow> bool" where
  "ends_number rest = (rest = [] \<or> hd rest = CHR '','' \<or> hd rest = CHR ''}'')"

text \<open>
  \<open>d\<close> is the demand level of the first entry of the catalog \<open>xs\<close> whose station id is
  \<open>v\<close>.
\<close>

definition demand_of_first :: "jsval list \<Rightarrow> jsval \<Rightarrow> jsval \<Rightarrow> bool" where
  "demand_of_first xs v d =
     (\<exists>pre st post. xs = pre @ st # post \<and> list_all (has_other_id v) pre \<and> has_station_id v st \<and>
                     d = opt_prop st ''demand_level'')"

text \<open>Sample data for the concrete instances below.\<close>

definition one_station :: jsval where
  "one_station = JObj [(''station_id'', JStr ''S1''), (''station_name'', JStr ''Central''),
     (''lat'', JNum 19), (''lng'', JNum 72), (''available_bikes'', JNum 5),
     (''demand_level'', JStr ''High'')]"

definition stored :: "string \<Rightarrow> storage" where
  "stored raw = empty_storage\<lparr>items := (\<lambda>k. if k = STORAGE_KEY then Some raw else None)\<rparr>"

definition reservation_record :: "string \<Rightarrow> jsval" where
  "reservation_record st =
     JObj [(''reservation_id'', JStr ''R-1''), (''station'', JStr ''Central''),
           (''date'', JStr ''2026-01-05''), (''time_slot'', JStr ''Morning''),
           (''price'', JNum 400), (''status'', JStr st)]"

definition snapshot_with :: "string \<Rightarrow> jsval" where
  "snapshot_with st =
     JObj [(''reservation_id'', JStr ''R-1''), (''station'', JStr ''Central''),
           (''date'', JStr ''2026-01-05''), (''time_slot'', JStr ''Morning''),
           (''price'', JNum 400), (''status'', JStr st),
           (''predicted_demand'', JStr ''High''), (''station_id'', JStr ''S1'')]"

definition server_answering :: "string \<Rightarrow> request \<Rightarrow> fetch_result" where
  "server_answering st r =
     (case r of
        GetStations \<Rightarrow> Resolves \<lparr>status = 200, body = Payload (JArr [one_station])\<rparr>
      | PostReserve b \<Rightarrow> Resolves \<lparr>status = 200, body = Payload (reservation_record st)\<rparr>
      | GetReservations e \<Rightarrow>
          Resolves \<lparr>status = 200, body = Payload (JObj [(''reservations'', JArr [])])\<rparr>)"

definition signed_in :: jsval where
  "signed_in = JObj [(''email'', JStr ''a@b.c''), (''name'', JStr ''A'')]"

definition ready_world :: world where
  "ready_world =
     upd_page (\<lambda>p. p\<lparr>stations := [one_station], stationId := JStr ''S1'',
                       predictedDemand := JStr ''High''\<rparr>)
       (startup ''2026-01-05'' empty_storage)"

definition held_world :: world where
  "held_world =
     upd_map (\<lambda>m. m\<lparr>map_stations := [one_station]\<rparr>)
       (upd_page (\<lambda>p. p\<lparr>stations := [one_station]\<rparr>) (startup ''2026-01-05'' empty_storage))"

definition other_station :: jsval where
  "other_station = JObj [(''station_id'', JStr ''S2''), (''station_name'', JStr ''Harbour''),
     (''lat'', JNum 18), (''lng'', JNum 73), (''available_bikes'', JNum 2),
     (''demand_level'', JStr ''Low'')]"

definition far_station :: jsval where
  "far_station = JObj [(''station_id'', JStr ''S3''), (''station_name'', JStr ''Airport''),
     (''lat'', JNum 20), (''lng'', JNum 74), (''available_bikes'', JNum 0),
     (''demand_level'', JStr ''Medium'')]"

definition from_map :: location where
  "from_map = \<lparr>nav_key = 1, nav_state = JObj [(''station_id'', JStr ''S1''),
                                               (''demand_level'', JStr ''High'')]\<rparr>"

definition mounted_page :: page where
  "mounted_page = (initial_page ''2026-01-05'')
     \<lparr>stations := [one_station, other_station, far_station], stations_ref := 1,
      stationId := JStr ''S1'', predictedDemand := JStr ''High''\<rparr>"

definition after_mount :: "hooks \<times> page" where
  "after_mount =
     (\<lparr>prefill_deps = Some from_map, autofill_deps = Some (JStr [], 0)\<rparr>,
      (initial_page ''2026-01-05'')\<lparr>stationId := JStr ''S1'', predictedDemand := JStr ''High''\<rparr>)"

definition mounted_hooks :: hooks where
  "mounted_hooks = \<lparr>prefill_deps = Some from_map, autofill_deps = Some (JStr ''S1'', 1)\<rparr>"

section \<open>Basic facts about the state\<close>

lemma upd_page_simps [simp]:
  "page (upd_page f w) = f (page w)"
  "trace (upd_page f w) = trace w"
  "latestReservation (upd_page f w) = latestReservation w"
  "latestReservationState (upd_page f w) = latestReservationState w"
  "localStorage (upd_page f w) = localStorage w"
  "leafletMap (upd_page f w) = leafletMap w"
  by (simp_all add: upd_page_def)

lemma emit_simps [simp]:
  "page (emit e w) = page w"
  "trace (emit e w) = trace w @ [e]"
  "latestReservation (emit e w) = latestReservation w"
  "latestReservationState (emit e w) = latestReservationState w"
  "localStorage (emit e w) = localStorage w"
  "leafletMap (emit e w) = leafletMap w"
  by (simp_all add: emit_def)

lemma upd_map_simps [simp]:
  "page (upd_map f w) = page w"
  "trace (upd_map f w) = trace w"
  "latestReservation (upd_map f w) = latestReservation w"
  "latestReservationState (upd_map f w) = latestReservationState w"
  "localStorage (upd_map f w) = localStorage w"
  "leafletMap (upd_map f w) = f (leafletMap w)"
  by (simp_all add: upd_map_def)

lemma setLatestReservation_simps [simp]:
  "trace (setLatestReservation env r w) = trace w @ [SetLatestReservation r]"
  "latestReservationState (setLatestReservation env r w) = r"
  "latestReservation (setLatestReservation env r w) = latestReservation w"
  "page (setLatestReservation env r w) = page w"
  by (simp_all add: setLatestReservation_def Let_def split: sum.splits)

lemma render_provider_simps [simp]:
  "latestReservation (render_provider w) = latestReservationState w"
  "latestReservationState (render_provider w) = latestReservationState w"
  "page (render_provider w) = page w"
  "trace (render_provider w) = trace w"
  "localStorage (render_provider w) = localStorage w"
  by (simp_all add: render_provider_def)

lemma startup_simps [simp]:
  "localStorage (startup today s) = s"
  "latestReservation (startup today s) = JNull"
  "latestReservationState (startup today s) = JNull"
  "trace (startup today s) = []"
  "page (startup today s) = initial_page today"
  by (simp_all add: startup_def)

lemma opt_prop_JObj:
  "opt_prop (JObj kvs) k = (case map_of kvs k of None \<Rightarrow> JUndefined | Some v \<Rightarrow> v)"
  by (simp add: opt_prop_def)

lemma signed_in_email: "opt_prop signed_in ''email'' = JStr ''a@b.c''"
  by (simp add: signed_in_def opt_prop_def)

lemma ready_world_page:
  "date (page ready_world) = ''2026-01-05''" "timeSlot (page ready_world) = ''Morning''"
  "stationId (page ready_world) = JStr ''S1''" "predictedDemand (page ready_world) = JStr ''High''"
  "trace ready_world = []"
  by (simp_all add: ready_world_def initial_page_def)

section \<open>Properties of the pricing rule\<close>

lemma strict_eq_JStr [simp]: "strict_eq v (JStr s) = (v = JStr s)"
  by (cases v) auto

text \<open>
  C1. For each of the demand levels Low, Medium and High and each of the four time slots,
  the price is the base price of the level (200, 300, 400) plus 100 exactly when the slot is
  Night; in particular the price of (Low, Morning) is 200, of (High, Night) 500 and of
  (Medium, Evening) 300.
\<close>

theorem calculatePrice_table:
  "(\<forall>slot \<in> set TIME_SLOTS.
      calculatePrice (JStr ''Low'') slot = 200 + (if slot = JStr ''Night'' then 100 else 0) \<and>
      calculatePrice (JStr ''Medium'') slot = 300 + (if slot = JStr ''Night'' then 100 else 0) \<and>
      calculatePrice (JStr ''High'') slot = 400 + (if slot = JStr ''Night'' then 100 else 0))
   \<and> calculatePrice (JStr ''Low'') (JStr ''Morning'') = 200
   \<and> calculatePrice (JStr ''High'') (JStr ''Night'') = 500
   \<and> calculatePrice (JStr ''Medium'') (JStr ''Evening'') = 300"
  by (simp add: calculatePrice_def TIME_SLOTS_def)

theorem calculatePrice_table_witness:
  "JStr ''Night'' \<in> set TIME_SLOTS \<and> calculatePrice (JStr ''Medium'') (JStr ''Night'') = 400
   \<and> JStr ''Afternoon'' \<in> set TIME_SLOTS \<and> calculatePrice (JStr ''High'') (JStr ''Afternoon'') = 400"
  using calculatePrice_table by (simp add: TIME_SLOTS_def)

text \<open>
  C10. The pricing function is defined on every demand value, and every value other than the
  strings High and Medium, a string outside the enumeration or a value that is not a string
  at all, is priced as the Low tier: 200, plus 100 when the slot is Night.
\<close>

theorem calculatePrice_default_low:
  "demand \<noteq> JStr ''High'' \<Longrightarrow> demand \<noteq> JStr ''Medium'' \<Longrightarrow>
   calculatePrice demand slot = 200 + (if slot = JStr ''Night'' then 100 else 0)"
  by (simp add: calculatePrice_def)

theorem calculatePrice_default_low_witness:
  "JStr ''Extreme'' \<noteq> JStr ''High'' \<and> JStr ''Extreme'' \<noteq> JStr ''Medium'' \<and>
   calculatePrice (JStr ''Extreme'') (JStr ''Night'') = 300 \<and>
   JUndefined \<noteq> JStr ''High'' \<and> JUndefined \<noteq> JStr ''Medium'' \<and>
   calculatePrice JUndefined (JStr ''Morning'') = 200"
  using calculatePrice_default_low [of "JStr ''Extreme''" "JStr ''Night''"]
        calculatePrice_default_low [of JUndefined "JStr ''Morning''"]
  by simp

section \<open>Validation before a reservation request\<close>

text \<open>
  C6. When the date, the time slot or the station is unset, \<open>handleReserve\<close> changes
  nothing but the error message, which names the first missing field; nothing is added to
  the trace, so no request is sent.
\<close>

theorem handleReserve_validation:
  assumes "date (page w) = [] \<or> timeSlot (page w) = [] \<or> \<not> truthy (stationId (page w))"
  shows "handleReserve env w =
           upd_page (\<lambda>q. q\<lparr>submitError :=
             Some (if date (page w) = [] then ''Please select a date.''
                   else if timeSlot (page w) = [] then ''Please select a time slot.''
                   else ''Please select a pickup station.'')\<rparr>) w
         \<and> trace (handleReserve env w) = trace w"
  using assms by (auto simp: handleReserve_def Let_def upd_page_def)

theorem handleReserve_validation_witness:
  "\<not> truthy (stationId (page (startup ''2026-01-05'' empty_storage))) \<and>
   submitError (page (handleReserve (browser (\<lambda>r. Rejects (ErrorObj ''Failed to fetch'')) JNull)
                        (startup ''2026-01-05'' empty_storage)))
     = Some ''Please select a pickup station.'' \<and>
   trace (handleReserve (browser (\<lambda>r. Rejects (ErrorObj ''Failed to fetch'')) JNull)
            (startup ''2026-01-05'' empty_storage)) = []"
proof -
  let ?w = "startup ''2026-01-05'' empty_storage"
  have h: "\<not> truthy (stationId (page ?w))" "date (page ?w) \<noteq> []" "timeSlot (page ?w) \<noteq> []"
    "trace ?w = []"
    by (simp_all add: startup_def initial_page_def)
  from h(1) have "date (page ?w) = [] \<or> timeSlot (page ?w) = [] \<or> \<not> truthy (stationId (page ?w))"
    by simp
  from handleReserve_validation [OF this] h show ?thesis
    by simp
qed

section \<open>The reservation list\<close>



section \<open>Loading the station catalog\<close>

text \<open>
  C7, as amended. In \<open>loadStations\<close> of the reservation page and in \<open>fetchStations\<close> of
  the map alike: a fetch that is rejected, a response without a success status, a body
  that is not JSON and a payload that is not an array each put the message of the failure
  into the error state and leave the held list as it was; a payload that is an array
  replaces the held list, whatever its elements are, and leaves no error.
\<close>

theorem stations_load_outcome:
  "(fetch env GetStations = Rejects e \<longrightarrow>
      stationsError (page (loadStations env w)) = Some (message_or e ''Failed to load stations'') \<and>
      stations (page (loadStations env w)) = stations (page w) \<and>
      map_error (leafletMap (fetchStations env w)) = Some (message_or e ''Failed to load bike stations'') \<and>
      map_stations (leafletMap (fetchStations env w)) = map_stations (leafletMap w))
   \<and> (fetch env GetStations = Resolves res \<and> \<not> ok res \<longrightarrow>
      stationsError (page (loadStations env w)) = Some (status_text ''Failed to load stations'' res) \<and>
      stations (page (loadStations env w)) = stations (page w) \<and>
      map_error (leafletMap (fetchStations env w)) = Some (status_text ''Failed to load stations'' res) \<and>
      map_stations (leafletMap (fetchStations env w)) = map_stations (leafletMap w))
   \<and> (fetch env GetStations = Resolves res \<and> ok res \<and> body res = Unparsable m \<longrightarrow>
      stationsError (page (loadStations env w)) = Some m \<and>
      stations (page (loadStations env w)) = stations (page w) \<and>
      map_error (leafletMap (fetchStations env w)) = Some m \<and>
      map_stations (leafletMap (fetchStations env w)) = map_stations (leafletMap w))
   \<and> (fetch env GetStations = Resolves res \<and> ok res \<and> body res = Payload v \<and> \<not> isArray v \<longrightarrow>
      stationsError (page (loadStations env w)) = Some ''Invalid stations response format'' \<and>
      stations (page (loadStations env w)) = stations (page w) \<and>
      map_error (leafletMap (fetchStations env w)) = Some ''Invalid stations response format'' \<and>
      map_stations (leafletMap (fetchStations env w)) = map_stations (leafletMap w))
   \<and> (fetch env GetStations = Resolves res \<and> ok res \<and> body res = Payload (JArr xs) \<longrightarrow>
      stationsError (page (loadStations env w)) = None \<and>
      stations (page (loadStations env w)) = xs \<and>
      map_error (leafletMap (fetchStations env w)) = None \<and>
      map_stations (leafletMap (fetchStations env w)) = xs)"
proof (intro conjI impI)
  assume "fetch env GetStations = Rejects e"
  then show "stationsError (page (loadStations env w)) = Some (message_or e ''Failed to load stations'')"
    "stations (page (loadStations env w)) = stations (page w)"
    "map_error (leafletMap (fetchStations env w)) = Some (message_or e ''Failed to load bike stations'')"
    "map_stations (leafletMap (fetchStations env w)) = map_stations (leafletMap w)"
    by (simp_all add: loadStations_def loadStations_try_def fetchStations_def fetchStations_try_def Let_def)
next
  assume "fetch env GetStations = Resolves res \<and> \<not> ok res"
  then show "stationsError (page (loadStations env w)) = Some (status_text ''Failed to load stations'' res)"
    "stations (page (loadStations env w)) = stations (page w)"
    "map_error (leafletMap (fetchStations env w)) = Some (status_text ''Failed to load stations'' res)"
    "map_stations (leafletMap (fetchStations env w)) = map_stations (leafletMap w)"
    by (simp_all add: loadStations_def loadStations_try_def fetchStations_def fetchStations_try_def Let_def)
next
  assume "fetch env GetStations = Resolves res \<and> ok res \<and> body res = Unparsable m"
  then show "stationsError (page (loadStations env w)) = Some m"
    "stations (page (loadStations env w)) = stations (page w)"
    "map_error (leafletMap (fetchStations env w)) = Some m"
    "map_stations (leafletMap (fetchStations env w)) = map_stations (leafletMap w)"
    by (simp_all add: loadStations_def loadStations_try_def fetchStations_def fetchStations_try_def
        Let_def json_of_def)
next
  assume h: "fetch env GetStations = Resolves res \<and> ok res \<and> body res = Payload v \<and> \<not> isArray v"
  then have "\<And>ys. v \<noteq> JArr ys" by auto
  with h show "stationsError (page (loadStations env w)) = Some ''Invalid stations response format''"
    "stations (page (loadStations env w)) = stations (page w)"
    "map_error (leafletMap (fetchStations env w)) = Some ''Invalid stations response format''"
    "map_stations (leafletMap (fetchStations env w)) = map_stations (leafletMap w)"
    by (simp_all add: loadStations_def loadStations_try_def fetchStations_def fetchStations_try_def
        Let_def json_of_def split: jsval.splits)
next
  assume "fetch env GetStations = Resolves res \<and> ok res \<and> body res = Payload (JArr xs)"
  then show "stationsError (page (loadStations env w)) = None"
    "stations (page (loadStations env w)) = xs"
    "map_error (leafletMap (fetchStations env w)) = None"
    "map_stations (leafletMap (fetchStations env w)) = xs"
    by (simp_all add: loadStations_def loadStations_try_def fetchStations_def fetchStations_try_def
        Let_def json_of_def)
qed

text \<open>
  C7 as stated fails: the payload \<open>[42]\<close> is not a sequence of station records, yet both
  components accept it, hold it as their list and report no error.
\<close>

theorem stations_payload_counterexample:
  "\<not> list_all is_Station [JNum 42] \<and>
   stationsError (page (loadStations
      (browser (\<lambda>r. Resolves \<lparr>status = 200, body = Payload (JArr [JNum 42])\<rparr>) JNull)
      (startup ''2026-01-05'' empty_storage))) = None \<and>
   stations (page (loadStations
      (browser (\<lambda>r. Resolves \<lparr>status = 200, body = Payload (JArr [JNum 42])\<rparr>) JNull)
      (startup ''2026-01-05'' empty_storage))) = [JNum 42] \<and>
   map_error (leafletMap (fetchStations
      (browser (\<lambda>r. Resolves \<lparr>status = 200, body = Payload (JArr [JNum 42])\<rparr>) JNull)
      (startup ''2026-01-05'' empty_storage))) = None \<and>
   map_stations (leafletMap (fetchStations
      (browser (\<lambda>r. Resolves \<lparr>status = 200, body = Payload (JArr [JNum 42])\<rparr>) JNull)
      (startup ''2026-01-05'' empty_storage))) = [JNum 42]"
  by (simp add: is_Station_def loadStations_def loadStations_try_def fetchStations_def
      fetchStations_try_def Let_def json_of_def browser_def ok_def startup_def)

lemma digits_503: "digits 503 = ''503''"
  by code_simp

theorem stations_load_outcome_witness:
  "fetch (browser (\<lambda>r. Rejects (ErrorObj ''Failed to fetch'')) JNull) GetStations
     = Rejects (ErrorObj ''Failed to fetch'') \<and>
   stationsError (page (loadStations (browser (\<lambda>r. Rejects (ErrorObj ''Failed to fetch'')) JNull)
                          held_world)) = Some ''Failed to fetch'' \<and>
   stations (page (loadStations (browser (\<lambda>r. Rejects (ErrorObj ''Failed to fetch'')) JNull)
                     held_world)) = [one_station] \<and>
   map_stations (leafletMap (fetchStations (browser (\<lambda>r. Rejects (ErrorObj ''Failed to fetch'')) JNull)
                               held_world)) = [one_station] \<and>
   \<not> ok \<lparr>status = 503, body = Payload (JObj [])\<rparr> \<and>
   stationsError (page (loadStations
      (browser (\<lambda>r. Resolves \<lparr>status = 503, body = Payload (JObj [])\<rparr>) JNull) held_world))
     = Some ''Failed to load stations (status 503)'' \<and>
   stations (page (loadStations
      (browser (\<lambda>r. Resolves \<lparr>status = 503, body = Payload (JObj [])\<rparr>) JNull) held_world))
     = [one_station] \<and>
   ok \<lparr>status = 200, body = Unparsable ''Unexpected token < in JSON at position 0''\<rparr> \<and>
   stationsError (page (loadStations
      (browser (\<lambda>r. Resolves \<lparr>status = 200,
                                body = Unparsable ''Unexpected token < in JSON at position 0''\<rparr>) JNull)
      held_world))
     = Some ''Unexpected token < in JSON at position 0'' \<and>
   stations (page (loadStations
      (browser (\<lambda>r. Resolves \<lparr>status = 200,
                                body = Unparsable ''Unexpected token < in JSON at position 0''\<rparr>) JNull)
      held_world))
     = [one_station] \<and>
   map_stations (leafletMap (fetchStations
      (browser (\<lambda>r. Resolves \<lparr>status = 200,
                                body = Unparsable ''Unexpected token < in JSON at position 0''\<rparr>) JNull)
      held_world))
     = [one_station] \<and>
   ok \<lparr>status = 200, body = Payload (JObj [(''stations'', JArr [])])\<rparr> \<and>
   \<not> isArray (JObj [(''stations'', JArr [])]) \<and>
   stationsError (page (loadStations
      (browser (\<lambda>r. Resolves \<lparr>status = 200, body = Payload (JObj [(''stations'', JArr [])])\<rparr>) JNull)
      held_world))
     = Some ''Invalid stations response format'' \<and>
   stations (page (loadStations
      (browser (\<lambda>r. Resolves \<lparr>status = 200, body = Payload (JObj [(''stations'', JArr [])])\<rparr>) JNull)
      held_world))
     = [one_station] \<and>
   ok \<lparr>status = 200, body = Payload (JArr [])\<rparr> \<and>
   stations (page (loadStations
      (browser (\<lambda>r. Resolves \<lparr>status = 200, body = Payload (JArr [])\<rparr>) JNull) held_world))
     = []"
proof -
  let ?w = held_world
  let ?e0 = "ErrorObj ''Failed to fetch''"
  let ?r1 = "\<lparr>status = 503, body = Payload (JObj [])\<rparr>"
  let ?r2 = "\<lparr>status = 200, body = Payload (JObj [(''stations'', JArr [])])\<rparr>"
  let ?r3 = "\<lparr>status = 200, body = Payload (JArr [])\<rparr>"
  let ?r4 = "\<lparr>status = 200, body = Unparsable ''Unexpected token < in JSON at position 0''\<rparr>"
  have f: "\<And>res. fetch (browser (\<lambda>r. Resolves res) JNull) GetStations = Resolves res"
    by (simp add: browser_def)
  have f0: "fetch (browser (\<lambda>r. Rejects ?e0) JNull) GetStations = Rejects ?e0"
    by (simp add: browser_def)
  have o: "\<not> ok ?r1" "ok ?r2" "ok ?r3" "ok ?r4" by (simp_all add: ok_def)
  have b: "body ?r2 = Payload (JObj [(''stations'', JArr [])])" "body ?r3 = Payload (JArr [])"
    "\<not> isArray (JObj [(''stations'', JArr [])])"
    "body ?r4 = Unparsable ''Unexpected token < in JSON at position 0''"
    by simp_all
  have s: "stations (page ?w) = [one_station]" "map_stations (leafletMap ?w) = [one_station]"
    by (simp_all add: held_world_def upd_map_def)
  have t: "status_text ''Failed to load stations'' ?r1 = ''Failed to load stations (status 503)''"
    by (simp add: status_text_def digits_503)
  from stations_load_outcome [where env = "browser (\<lambda>r. Rejects ?e0) JNull" and e = ?e0 and w = ?w]
    f0 s
  have 0: "stationsError (page (loadStations (browser (\<lambda>r. Rejects ?e0) JNull) ?w))
             = Some ''Failed to fetch''"
          "stations (page (loadStations (browser (\<lambda>r. Rejects ?e0) JNull) ?w)) = [one_station]"
          "map_stations (leafletMap (fetchStations (browser (\<lambda>r. Rejects ?e0) JNull) ?w))
             = [one_station]"
    by simp_all
  from stations_load_outcome [where env = "browser (\<lambda>r. Resolves ?r1) JNull" and res = ?r1 and w = ?w]
    f [of ?r1] o(1) s t
  have 1: "stationsError (page (loadStations (browser (\<lambda>r. Resolves ?r1) JNull) ?w))
             = Some ''Failed to load stations (status 503)''"
          "stations (page (loadStations (browser (\<lambda>r. Resolves ?r1) JNull) ?w)) = [one_station]"
    by simp_all
  from stations_load_outcome [where env = "browser (\<lambda>r. Resolves ?r4) JNull" and res = ?r4
      and m = "''Unexpected token < in JSON at position 0''" and w = ?w]
    f [of ?r4] o(4) b(4) s
  have 4: "stationsError (page (loadStations (browser (\<lambda>r. Resolves ?r4) JNull) ?w))
             = Some ''Unexpected token < in JSON at position 0''"
          "stations (page (loadStations (browser (\<lambda>r. Resolves ?r4) JNull) ?w)) = [one_station]"
          "map_stations (leafletMap (fetchStations (browser (\<lambda>r. Resolves ?r4) JNull) ?w))
             = [one_station]"
    by simp_all
  from stations_load_outcome [where env = "browser (\<lambda>r. Resolves ?r2) JNull" and res = ?r2
      and v = "JObj [(''stations'', JArr [])]" and w = ?w]
    f [of ?r2] o(2) b s
  have 2: "stationsError (page (loadStations (browser (\<lambda>r. Resolves ?r2) JNull) ?w))
             = Some ''Invalid stations response format''"
          "stations (page (loadStations (browser (\<lambda>r. Resolves ?r2) JNull) ?w)) = [one_station]"
    by simp_all
  from stations_load_outcome [where env = "browser (\<lambda>r. Resolves ?r3) JNull" and res = ?r3
      and xs = "[]" and w = ?w]
    f [of ?r3] o(3) b
  have 3: "stations (page (loadStations (browser (\<lambda>r. Resolves ?r3) JNull) ?w)) = []"
    by simp
  from f0 0 1 2 3 4 o b(3) show ?thesis by simp
qed

section \<open>The status of the stored snapshot\<close>

lemma fetchUserReservations_events:
  "\<exists>evs. trace (fetchUserReservations env w) = trace w @ evs \<and>
         (\<forall>v. SetLatestReservation v \<notin> set evs)"
  by (auto simp: fetchUserReservations_def fetchUserReservations_try_def Let_def json_of_def
      split: fetch_result.splits sum.splits option.splits)

text \<open>
  C2, as amended. Every value that \<open>handleReserve\<close> passes to \<open>setLatestReservation\<close>
  comes from a reserve response with a success status, and its \<open>status\<close> is the \<open>status\<close>
  of that response: it is Confirmed exactly when the server says so.
\<close>

theorem snapshot_status_from_server:
  assumes "SetLatestReservation v \<in> set (trace (handleReserve env w))"
      and "SetLatestReservation v \<notin> set (trace w)"
  shows "\<exists>res. fetch env (reserve_request env (page w)) = Resolves res \<and> ok res \<and>
               read_prop v ''status'' = Inr (opt_prop (json_or_empty res) ''status'')"
proof -
  obtain evs where e: "\<And>w'. trace (fetchUserReservations env w') = trace w' @ evs w'"
    "\<And>w' u. SetLatestReservation u \<notin> set (evs w')"
    using fetchUserReservations_events by metis
  show ?thesis
    using assms
    by (auto simp: handleReserve_def handleReserve_try_def Let_def latest_of_def e
        split: if_splits fetch_result.splits sum.splits)
qed

lemma handleReserve_ready:
  "trace (handleReserve (browser (server_answering st) signed_in) ready_world)
     = [Fetch (reserve_request (browser (server_answering st) signed_in) (page ready_world)),
        SetLatestReservation (snapshot_with st),
        Fetch (GetReservations (JStr ''a@b.c''))]"
  "latestReservationState (handleReserve (browser (server_answering st) signed_in) ready_world)
     = snapshot_with st"
  by (simp_all add: handleReserve_def handleReserve_try_def ready_world_page Let_def
      reserve_request_def browser_def server_answering_def ok_def json_or_empty_def json_of_def
      latest_of_def reservation_record_def opt_prop_JObj snapshot_with_def signed_in_email
      fetchUserReservations_def fetchUserReservations_try_def)

text \<open>
  C2 as stated fails: when the server answers the reserve request with a success status
  and the status Pending, the snapshot passed to \<open>setLatestReservation\<close>, and read by the
  consumers from the next render on, has the status Pending.
\<close>

theorem snapshot_status_counterexample:
  "SetLatestReservation (snapshot_with ''Pending'')
     \<in> set (trace (handleReserve (browser (server_answering ''Pending'') signed_in) ready_world)) \<and>
   useReservation (render_provider
       (handleReserve (browser (server_answering ''Pending'') signed_in) ready_world))
     = snapshot_with ''Pending'' \<and>
   read_prop (snapshot_with ''Pending'') ''status'' = Inr (JStr ''Pending'') \<and>
   JStr ''Pending'' \<noteq> JStr ''Confirmed''"
  by (simp add: handleReserve_ready useReservation_def) (simp add: snapshot_with_def)

theorem snapshot_status_from_server_witness:
  "SetLatestReservation (snapshot_with ''Confirmed'')
     \<in> set (trace (handleReserve (browser (server_answering ''Confirmed'') signed_in) ready_world)) \<and>
   SetLatestReservation (snapshot_with ''Confirmed'') \<notin> set (trace ready_world) \<and>
   read_prop (snapshot_with ''Confirmed'') ''status''
     = Inr (opt_prop (json_or_empty \<lparr>status = 200, body = Payload (reservation_record ''Confirmed'')\<rparr>)
              ''status'')"
proof -
  let ?env = "browser (server_answering ''Confirmed'') signed_in"
  have a: "SetLatestReservation (snapshot_with ''Confirmed'') \<in> set (trace (handleReserve ?env ready_world))"
    by (simp add: handleReserve_ready)
  have b: "SetLatestReservation (snapshot_with ''Confirmed'') \<notin> set (trace ready_world)"
    by (simp add: ready_world_page)
  have f: "fetch ?env (reserve_request ?env (page ready_world))
             = Resolves \<lparr>status = 200, body = Payload (reservation_record ''Confirmed'')\<rparr>"
    by (simp add: browser_def reserve_request_def server_answering_def)
  from snapshot_status_from_server [OF a b] f a b show ?thesis
    by auto
qed

section \<open>JSON text of a snapshot is parsed back to the snapshot\<close>

lemma hex_digits_table: "list_all (\<lambda>d. hex_value (hex_digit d) = Some d) [0..<16]"
  by code_simp

lemma hex_value_hex_digit: "d < 16 \<Longrightarrow> hex_value (hex_digit d) = Some d"
  using hex_digits_table by (simp add: list_all_iff)

lemma hex_value_zero: "hex_value CHR ''0'' = Some 0"
  by (simp add: hex_value_def)

lemma hex4_control:
  assumes "n < 32"
  shows "hex4 CHR ''0'' CHR ''0'' (hex_digit (n div 16)) (hex_digit (n mod 16)) = Some n"
proof -
  have "n div 16 < 16" "n mod 16 < 16" using assms by auto
  then show ?thesis
    by (simp add: hex4_def hex_value_zero hex_value_hex_digit)
qed

lemma parse_chars_quote_char:
  "parse_chars (quote_char c @ cs) = cons_result c (parse_chars cs)"
proof -
  consider (q) "c = CHR ''\"''" | (b) "c = CHR 0x5C" | (c8) "c = CHR 0x08" | (cc) "c = CHR 0x0C"
    | (ca) "c = CHR 0x0A" | (cd) "c = CHR 0x0D" | (c9) "c = CHR 0x09"
    | (ctl) "c \<noteq> CHR ''\"''" "c \<noteq> CHR 0x5C" "c \<noteq> CHR 0x08" "c \<noteq> CHR 0x0C" "c \<noteq> CHR 0x0A"
            "c \<noteq> CHR 0x0D" "c \<noteq> CHR 0x09" "(of_char c :: nat) < 32"
    | (plain) "c \<noteq> CHR ''\"''" "c \<noteq> CHR 0x5C" "\<not> (of_char c :: nat) < 32"
    by (cases "(of_char c :: nat) < 32") auto
  then show ?thesis
  proof cases
    case ctl
    then show ?thesis
      by (simp add: quote_char_def hex4_control)
  next
    case plain
    then have "quote_char c = [c]"
      by (auto simp: quote_char_def)
    with plain show ?thesis by simp
  qed (simp_all add: quote_char_def unescape_def)
qed

lemma parse_chars_quoted:
  "parse_chars (concat (map quote_char s) @ CHR ''\"'' # rest) = Some (s, rest)"
  by (induction s) (simp_all add: parse_chars_quote_char cons_result_def)

lemma of_char_digit: "(d::nat) < 10 \<Longrightarrow> (of_char (char_of (48 + d)) :: nat) = 48 + d"
  by simp

lemma is_digit_char_of: "(d::nat) < 10 \<Longrightarrow> is_digit (char_of (48 + d))"
  by (simp add: is_digit_def)

lemma digits_nonempty: "digits n \<noteq> []"
  by (subst digits.simps) simp

lemma digits_all_digit: "c \<in> set (digits n) \<Longrightarrow> is_digit c"
proof (induction n arbitrary: c rule: digits.induct)
  case (1 n)
  show ?case
  proof (cases "n < 10")
    case True
    with "1.prems" show ?thesis
      by (subst (asm) digits.simps) (simp add: is_digit_char_of)
  next
    case False
    have "n mod 10 < 10" by simp
    then have "is_digit (char_of (48 + n mod 10))" by (rule is_digit_char_of)
    with False "1.prems" "1.IH" show ?thesis
      by (subst (asm) digits.simps) auto
  qed
qed

lemma digits_value_snoc: "digits_value (ds @ [c]) = 10 * digits_value ds + (of_char c - 48)"
  by (simp add: digits_value_def)

lemma digits_value_digits: "digits_value (digits n) = n"
proof (induction n rule: digits.induct)
  case (1 n)
  show ?case
  proof (cases "n < 10")
    case True
    then show ?thesis
      by (subst digits.simps) (simp add: digits_value_def)
  next
    case False
    have "n mod 10 < 10" by simp
    then have "(of_char (char_of (48 + n mod 10)) :: nat) = 48 + n mod 10"
      by (rule of_char_digit)
    with False "1.IH" show ?thesis
      by (subst digits.simps) (simp add: digits_value_snoc)
  qed
qed

lemma hd_digits_nonzero: "0 < n \<Longrightarrow> hd (digits n) \<noteq> CHR ''0''"
proof (induction n rule: digits.induct)
  case (1 n)
  show ?case
  proof (cases "n < 10")
    case True
    have "char_of (48 + n) = CHR ''0'' \<Longrightarrow> n = 0"
    proof -
      assume "char_of (48 + n) = CHR ''0''"
      then have "(of_char (char_of (48 + n)) :: nat) = of_char CHR ''0''" by simp
      with True show "n = 0" by simp
    qed
    with True "1.prems" show ?thesis
      by (subst digits.simps) auto
  next
    case False
    then have "0 < n div 10" by simp
    with False "1.IH" have "hd (digits (n div 10)) \<noteq> CHR ''0''" by simp
    with False show ?thesis
      by (subst digits.simps) (simp add: digits_nonempty)
  qed
qed

lemma digits_zero: "digits 0 = ''0''"
  by code_simp

lemma leading_zero_ok: "\<not> (hd (digits n) = CHR ''0'' \<and> length (digits n) > 1)"
  by (cases "n = 0") (simp_all add: digits_zero hd_digits_nonzero)

lemma hd_digits_is_digit: "is_digit (hd (digits n))"
  using digits_all_digit [of "hd (digits n)" n] digits_nonempty [of n] by simp

lemma takeWhile_digits:
  assumes "ends_number rest"
  shows "takeWhile is_digit (digits n @ rest) = digits n"
    and "dropWhile is_digit (digits n @ rest) = rest"
proof -
  have r: "rest = [] \<or> \<not> is_digit (hd rest)"
    using assms by (auto simp: ends_number_def is_digit_def)
  have a: "\<forall>c \<in> set (digits n). is_digit c" by (simp add: digits_all_digit)
  from r a show "takeWhile is_digit (digits n @ rest) = digits n"
    by (cases rest) (simp_all add: takeWhile_append2)
  from r a show "dropWhile is_digit (digits n @ rest) = rest"
    by (cases rest) (simp_all add: dropWhile_append2)
qed

lemma parse_number_digits:
  assumes "ends_number rest"
  shows "parse_number (digits n @ rest) = Some (int n, rest)"
proof -
  have m: "hd (digits n @ rest) \<noteq> CHR ''-''"
    using hd_digits_is_digit [of n] digits_nonempty [of n] by (auto simp: is_digit_def)
  have e: "\<not> (rest \<noteq> [] \<and> hd rest \<in> {CHR ''.'', CHR ''e'', CHR ''E''})"
    using assms by (auto simp: ends_number_def)
  show ?thesis
    using m e leading_zero_ok [of n]
    by (simp add: parse_number_def Let_def takeWhile_digits [OF assms] digits_nonempty
        digits_value_digits)
qed

lemma skip_ws_Cons: "\<not> is_ws c \<Longrightarrow> skip_ws (c # cs) = c # cs"
  by (simp add: skip_ws_def)

lemma skip_ws_Nil: "skip_ws [] = []"
  by (simp add: skip_ws_def)

lemma is_digit_not_ws: "is_digit c \<Longrightarrow> \<not> is_ws c"
  by (auto simp: is_digit_def is_ws_def)

lemma serialize_flat: "flat v \<Longrightarrow> SerializeJSONProperty v = Some (value_text v)"
  by (cases v) (simp_all add: flat_def value_text_def)

lemma parse_value_string:
  "parse_value (Suc n) (QuoteJSONString s @ rest) = Some (JStr s, rest)"
  by (simp add: QuoteJSONString_def parse_chars_quoted)

lemma parse_value_number:
  assumes "ends_number rest"
  shows "parse_value (Suc n) (digits m @ rest) = Some (JNum (int m), rest)"
proof -
  obtain c r where cr: "digits m = c # r"
    using digits_nonempty [of m] by (cases "digits m") auto
  have d: "is_digit c"
    using hd_digits_is_digit [of m] cr by simp
  then have ne: "c \<noteq> CHR ''\"''" "c \<noteq> CHR ''[''" "c \<noteq> CHR ''{''" "c \<noteq> CHR ''t''" "c \<noteq> CHR ''f''"
    "c \<noteq> CHR ''n''"
    by (auto simp: is_digit_def)
  have t: "take 4 (c # r @ rest) \<noteq> ''true''" "take 5 (c # r @ rest) \<noteq> ''false''"
    "take 4 (c # r @ rest) \<noteq> ''null''"
    using ne by (auto simp: take_Cons')
  have p: "parse_number (c # r @ rest) = Some (int m, rest)"
    using parse_number_digits [OF assms, of m] cr by simp
  show ?thesis
    using ne t p by (simp add: cr)
qed

lemma parse_value_flat:
  assumes "flat v" "ends_number rest"
  shows "parse_value (Suc n) (value_text v @ rest) = Some (v, rest)"
proof (cases v)
  case (JStr s)
  then show ?thesis
    using parse_value_string [of n s rest]
    by (simp add: value_text_def del: parse_value.simps)
next
  case (JNum i)
  with assms(1) have i: "0 \<le> i" by (simp add: flat_def)
  then have t: "Number_toString i = digits (nat i)"
    unfolding Number_toString_def by auto
  from i have "int (nat i) = i" by simp
  with JNum parse_value_number [OF assms(2), of n "nat i"] t show ?thesis
    by (simp add: value_text_def del: parse_value.simps)
qed (use assms(1) in \<open>simp_all add: flat_def\<close>)

lemma value_text_skip_ws:
  assumes "flat v"
  shows "skip_ws (value_text v @ rest) = value_text v @ rest"
proof (cases v)
  case (JStr s)
  then show ?thesis
    by (simp add: value_text_def QuoteJSONString_def skip_ws_Cons is_ws_def)
next
  case (JNum i)
  with assms have "0 \<le> i" by (simp add: flat_def)
  obtain c r where cr: "digits (nat i) = c # r"
    using digits_nonempty [of "nat i"] by (cases "digits (nat i)") auto
  have "is_digit c" using hd_digits_is_digit [of "nat i"] cr by simp
  then have "\<not> is_ws c" by (rule is_digit_not_ws)
  moreover from \<open>0 \<le> i\<close> have "Number_toString i = digits (nat i)"
    unfolding Number_toString_def by auto
  with JNum cr \<open>\<not> is_ws c\<close> show ?thesis
    by (simp add: value_text_def skip_ws_Cons)
qed (use assms in \<open>simp_all add: flat_def\<close>)

lemma define_property_fresh:
  "k \<notin> fst ` set acc \<Longrightarrow> define_property k v acc = acc @ [(k, v)]"
  by (induction acc) auto

lemma parse_member:
  assumes "flat v" "k \<notin> fst ` set acc" "0 < n" "c = CHR '','' \<or> c = CHR ''}''"
  shows "parse_members (Suc n) acc (member_text (k, v) @ c # rest) =
           (if c = CHR '','' then parse_members n (acc @ [(k, v)]) (skip_ws rest)
            else Some (JObj (acc @ [(k, v)]), rest))"
proof -
  obtain n' where n: "n = Suc n'" using assms(3) by (cases n) auto
  have e: "ends_number (c # rest)" using assms(4) by (auto simp: ends_number_def)
  have w: "\<not> is_ws c" "\<not> is_ws CHR '':''" using assms(4) by (auto simp: is_ws_def)
  have "member_text (k, v) @ c # rest =
          CHR ''\"'' # concat (map quote_char k) @ CHR ''\"'' # CHR '':'' # value_text v @ c # rest"
    by (simp add: member_text_def QuoteJSONString_def)
  then show ?thesis
    using assms(4) w
    by (auto simp: parse_chars_quoted skip_ws_Cons value_text_skip_ws [OF assms(1)] n
        parse_value_flat [OF assms(1) e] define_property_fresh [OF assms(2)]
        simp del: parse_value.simps)
qed

lemma member_text_skip_ws: "skip_ws (member_text kv @ rest) = member_text kv @ rest"
  by (simp add: member_text_def QuoteJSONString_def skip_ws_Cons is_ws_def)

lemma join_members_skip_ws:
  "kvs \<noteq> [] \<Longrightarrow> skip_ws (join '','' (map member_text kvs) @ rest)
                 = join '','' (map member_text kvs) @ rest"
proof (cases kvs)
  case (Cons kv kvs')
  then show ?thesis
    by (cases kvs') (simp_all add: member_text_skip_ws)
qed simp

lemma parse_members_flat:
  assumes "list_all (\<lambda>kv. flat (snd kv)) (kv # kvs)"
      and "distinct (map fst (acc @ kv # kvs))"
      and "length kvs < n"
  shows "parse_members (Suc n) acc (join '','' (map member_text (kv # kvs)) @ CHR ''}'' # rest)
           = Some (JObj (acc @ kv # kvs), rest)"
  using assms
proof (induction kvs arbitrary: kv acc n)
  case Nil
  obtain k v where kv: "kv = (k, v)" by (cases kv)
  with Nil show ?case
    using parse_member [of v k acc n "CHR ''}''" rest] by auto
next
  case (Cons kv' kvs)
  obtain k v where kv: "kv = (k, v)" by (cases kv)
  obtain n' where n: "n = Suc n'" using Cons.prems(3) by (cases n) auto
  have f: "flat v" "k \<notin> fst ` set acc" "0 < n"
    using Cons.prems kv by auto
  have ih: "parse_members (Suc n') (acc @ [(k, v)])
              (join '','' (map member_text (kv' # kvs)) @ CHR ''}'' # rest)
            = Some (JObj ((acc @ [(k, v)]) @ kv' # kvs), rest)"
    using Cons.prems kv n by (intro Cons.IH) auto
  have "join '','' (map member_text (kv # kv' # kvs)) @ CHR ''}'' # rest
          = member_text (k, v) @ CHR '','' # (join '','' (map member_text (kv' # kvs)) @ CHR ''}'' # rest)"
    by (simp add: kv)
  then show ?case
    using parse_member [OF f, of "CHR '',''"] ih n kv
      join_members_skip_ws [of "kv' # kvs" "CHR ''}'' # rest"]
    by simp
qed

lemma members_concat:
  "list_all (\<lambda>kv. flat (snd kv)) kvs \<Longrightarrow>
   concat (map (\<lambda>kv. case SerializeJSONProperty (snd kv) of
                        None \<Rightarrow> []
                      | Some t \<Rightarrow> [QuoteJSONString (fst kv) @ '':'' @ t]) kvs)
     = map member_text kvs"
  by (induction kvs) (simp_all add: serialize_flat member_text_def)

lemma serialize_flat_object:
  "list_all (\<lambda>kv. flat (snd kv)) kvs \<Longrightarrow>
   SerializeJSONProperty (JObj kvs) = Some (CHR ''{'' # join '','' (map member_text kvs) @ ''}'')"
  by (simp add: members_concat)

lemma member_text_length: "Suc 0 \<le> length (member_text kv)"
  by (simp add: member_text_def QuoteJSONString_def)

lemma length_join_members: "length kvs \<le> length (join '','' (map member_text kvs))"
proof (induction kvs rule: induct_list012)
  case (2 kv)
  show ?case using member_text_length [of kv] by simp
next
  case (3 kv kv' kvs)
  with member_text_length [of kv] show ?case by simp
qed simp

lemma parse_value_object:
  "skip_ws t = c # r \<Longrightarrow> c \<noteq> CHR ''}'' \<Longrightarrow>
   parse_value (Suc n) (CHR ''{'' # t) = parse_members n [] (c # r)"
  by simp

lemma ECMA_parse_flat_object:
  assumes "kvs \<noteq> []" "list_all (\<lambda>kv. flat (snd kv)) kvs" "distinct (map fst kvs)"
  shows "ECMA_parse (CHR ''{'' # join '','' (map member_text kvs) @ ''}'') = Some (JObj kvs)"
proof -
  define t where "t = join '','' (map member_text kvs) @ ''}''"
  obtain kv kvs' where k: "kvs = kv # kvs'" using assms(1) by (cases kvs) auto
  obtain c r where cr: "t = c # r" by (cases t) (auto simp: t_def)
  have sk: "skip_ws t = c # r"
    using join_members_skip_ws [OF assms(1), of "''}''"] cr by (simp add: t_def)
  have q: "c \<noteq> CHR ''}''"
    using cr k by (cases kvs') (auto simp: t_def member_text_def QuoteJSONString_def)
  have n: "length kvs' < length t"
    using length_join_members [of kvs] k by (simp add: t_def)
  have tt: "join '','' (map member_text (kv # kvs')) @ CHR ''}'' # [] = t"
    by (simp add: t_def k)
  have "parse_members (Suc (length t)) [] (join '','' (map member_text (kv # kvs')) @ CHR ''}'' # [])
          = Some (JObj ([] @ kv # kvs'), [])"
    using assms n unfolding k by (intro parse_members_flat) auto
  then have pm: "parse_members (Suc (length t)) [] t = Some (JObj kvs, [])"
    unfolding tt using k by (simp del: parse_members.simps)
  have "parse_value (Suc (Suc (length t))) (CHR ''{'' # t) = parse_members (Suc (length t)) [] (c # r)"
    using sk q by (rule parse_value_object)
  also have "\<dots> = parse_members (Suc (length t)) [] t"
    by (simp only: cr [symmetric])
  finally have "parse_value (Suc (Suc (length t))) (CHR ''{'' # t) = Some (JObj kvs, [])"
    using pm by (simp del: parse_members.simps parse_value.simps)
  then have "ECMA_parse (CHR ''{'' # t) = Some (JObj kvs)"
    by (simp add: ECMA_parse_def skip_ws_Nil skip_ws_Cons is_ws_def del: parse_value.simps)
  then show ?thesis by (simp add: t_def)
qed

lemma field_ok_flat: "field_ok k v \<Longrightarrow> flat v"
  by (auto simp: field_ok_def flat_def split: if_splits jsval.splits)

lemma ECMA_roundtrip_LatestReservation:
  assumes "is_LatestReservation s"
  shows "\<exists>t. SerializeJSONProperty s = Some t \<and> t \<noteq> [] \<and> ECMA_parse t = Some s"
proof -
  from assms obtain kvs where s: "s = JObj kvs"
    by (cases s) (simp_all add: is_LatestReservation_def)
  from assms s have d: "distinct (map fst kvs)" and f: "list_all (\<lambda>kv. field_ok (fst kv) (snd kv)) kvs"
    and r: "''status'' \<in> set (map fst kvs)"
    by (simp_all add: is_LatestReservation_def)
  from r have ne: "kvs \<noteq> []" by auto
  from f have fl: "list_all (\<lambda>kv. flat (snd kv)) kvs"
    by (auto simp: list_all_iff field_ok_flat)
  show ?thesis
    using serialize_flat_object [OF fl] ECMA_parse_flat_object [OF ne fl d] s
    by (simp del: SerializeJSONProperty.simps)
qed

section \<open>The snapshot store\<close>

text \<open>
  C3, as amended. When \<open>setLatestReservation(s)\<close> returns, \<open>s\<close> is the state that React
  keeps for the provider, whatever \<open>s\<close> is and whether or not the storage accepts the
  write; the readers of the context still hold the value of the last render, and every
  one of them reads \<open>s\<close> from the next render of the provider on. Of two calls before a
  render the later one counts, and after \<open>setLatestReservation(null)\<close> and a render the
  readers hold \<open>null\<close>.
\<close>

theorem snapshot_set_render:
  "latestReservationState (setLatestReservation env s w) = s \<and>
   useReservation (setLatestReservation env s w) = useReservation w \<and>
   useReservation (render_provider (setLatestReservation env s w)) = s \<and>
   useReservation (render_provider (setLatestReservation env s' (setLatestReservation env s w))) = s' \<and>
   useReservation (render_provider (setLatestReservation env JNull w)) = JNull"
  by (simp add: useReservation_def)

text \<open>
  C3 as stated fails: when \<open>setLatestReservation(s)\<close> has returned and the provider has
  not yet rendered again, a reader of the store still gets \<open>null\<close>, not the well-formed
  snapshot \<open>s\<close>.
\<close>

theorem snapshot_set_get_counterexample:
  "is_LatestReservation (snapshot_with ''Confirmed'') \<and>
   useReservation (setLatestReservation (browser (server_answering ''Confirmed'') signed_in)
                     (snapshot_with ''Confirmed'') ready_world) = JNull \<and>
   snapshot_with ''Confirmed'' \<noteq> JNull"
  by (simp add: useReservation_def ready_world_def)
     (simp add: is_LatestReservation_def snapshot_with_def field_ok_def)

lemma is_LatestReservation_truthy: "is_LatestReservation s \<Longrightarrow> truthy s"
  by (cases s) (simp_all add: is_LatestReservation_def)

text \<open>
  C4. When the storage accepts the write, the text that \<open>setLatestReservation(s)\<close> stores
  for a well-formed snapshot \<open>s\<close> is read back as exactly \<open>s\<close> by the hydrating effect of
  the next process, and \<open>s\<close> is what the readers of the context get in the render that
  follows the effect.
\<close>

theorem snapshot_reload:
  assumes "is_LatestReservation s"
      and "JSON_parse env = ECMA_parse" and "JSON_stringify env = SerializeJSONProperty"
      and "\<not> access_denied (localStorage w)" and "\<not> quota_exceeded (localStorage w)"
  shows "hydrate env (startup today (localStorage (setLatestReservation env s w)))
           = Inr ((startup today (localStorage (setLatestReservation env s w)))
                    \<lparr>latestReservationState := s\<rparr>)
       \<and> useReservation (render_provider
             ((startup today (localStorage (setLatestReservation env s w)))
                \<lparr>latestReservationState := s\<rparr>)) = s"
proof -
  obtain t where t: "SerializeJSONProperty s = Some t" "t \<noteq> []" "ECMA_parse t = Some s"
    using ECMA_roundtrip_LatestReservation [OF assms(1)] by blast
  let ?s = "localStorage (setLatestReservation env s w)"
  have st: "?s = (localStorage w)\<lparr>items := (items (localStorage w))(STORAGE_KEY \<mapsto> t)\<rparr>"
    using assms t is_LatestReservation_truthy [OF assms(1)]
    by (simp add: setLatestReservation_def persist_try_def setItem_def Let_def
        del: SerializeJSONProperty.simps)
  have "getItem ?s STORAGE_KEY = Inr (Some t)"
    using assms(4) by (simp add: st getItem_def)
  then show ?thesis
    using t assms(2) by (simp add: hydrate_def hydrate_try_def useReservation_def)
qed

lemma snapshot_with_Confirmed_ok: "is_LatestReservation (snapshot_with ''Confirmed'')"
  by (simp add: is_LatestReservation_def snapshot_with_def field_ok_def)

theorem snapshot_reload_witness:
  "is_LatestReservation (snapshot_with ''Confirmed'') \<and>
   JSON_parse (browser (server_answering ''Confirmed'') signed_in) = ECMA_parse \<and>
   JSON_stringify (browser (server_answering ''Confirmed'') signed_in) = SerializeJSONProperty \<and>
   \<not> access_denied (localStorage ready_world) \<and> \<not> quota_exceeded (localStorage ready_world) \<and>
   hydrate (browser (server_answering ''Confirmed'') signed_in)
     (startup ''2026-01-06''
        (localStorage (setLatestReservation (browser (server_answering ''Confirmed'') signed_in)
                         (snapshot_with ''Confirmed'') ready_world)))
   = Inr ((startup ''2026-01-06''
             (localStorage (setLatestReservation (browser (server_answering ''Confirmed'') signed_in)
                              (snapshot_with ''Confirmed'') ready_world)))
            \<lparr>latestReservationState := snapshot_with ''Confirmed''\<rparr>) \<and>
   useReservation (render_provider
     ((startup ''2026-01-06''
         (localStorage (setLatestReservation (browser (server_answering ''Confirmed'') signed_in)
                          (snapshot_with ''Confirmed'') ready_world)))
        \<lparr>latestReservationState := snapshot_with ''Confirmed''\<rparr>))
   = snapshot_with ''Confirmed''"
proof -
  let ?env = "browser (server_answering ''Confirmed'') signed_in"
  have a: "JSON_parse ?env = ECMA_parse" "JSON_stringify ?env = SerializeJSONProperty"
    by (simp_all add: browser_def)
  have b: "\<not> access_denied (localStorage ready_world)" "\<not> quota_exceeded (localStorage ready_world)"
    by (simp_all add: ready_world_def empty_storage_def)
  from snapshot_reload [OF snapshot_with_Confirmed_ok a b, of "''2026-01-06''"]
    snapshot_with_Confirmed_ok a b
  show ?thesis by blast
qed

text \<open>
  C5, as amended. When \<open>JSON.parse\<close> raises on the stored string, the hydrating effect
  raises nothing and the snapshot stays absent, before and after the next render.
\<close>

theorem corrupt_storage_ignored:
  assumes "items s STORAGE_KEY = Some raw" and "JSON_parse env raw = None"
  shows "hydrate env (startup today s) = Inr (startup today s) \<and>
         useReservation (startup today s) = JNull \<and>
         useReservation (render_provider (startup today s)) = JNull"
  using assms
  by (simp add: hydrate_def hydrate_try_def getItem_def useReservation_def split: sum.splits)

lemma parse_empty_object: "ECMA_parse ''{}'' = Some (JObj [])"
  by code_simp

lemma parse_number_text: "ECMA_parse ''42'' = Some (JNum 42)"
  by code_simp

lemma parse_not_json: "ECMA_parse ''not json'' = None"
  by code_simp

text \<open>
  C5 as stated fails: the stored strings \<open>42\<close> and \<open>{}\<close> do not parse as a snapshot,
  yet the hydrating effect keeps the number and the empty object as the snapshot, which
  the readers get in the render that follows.
\<close>

theorem corrupt_storage_counterexample:
  "ECMA_parse ''42'' = Some (JNum 42) \<and> \<not> is_LatestReservation (JNum 42) \<and>
   hydrate (browser (server_answering ''Confirmed'') signed_in) (startup ''2026-01-06'' (stored ''42''))
     = Inr ((startup ''2026-01-06'' (stored ''42''))\<lparr>latestReservationState := JNum 42\<rparr>) \<and>
   useReservation (render_provider
     ((startup ''2026-01-06'' (stored ''42''))\<lparr>latestReservationState := JNum 42\<rparr>)) = JNum 42 \<and>
   JNum 42 \<noteq> JNull \<and>
   ECMA_parse ''{}'' = Some (JObj []) \<and> \<not> is_LatestReservation (JObj []) \<and>
   hydrate (browser (server_answering ''Confirmed'') signed_in) (startup ''2026-01-06'' (stored ''{}''))
     = Inr ((startup ''2026-01-06'' (stored ''{}''))\<lparr>latestReservationState := JObj []\<rparr>) \<and>
   useReservation (render_provider
     ((startup ''2026-01-06'' (stored ''{}''))\<lparr>latestReservationState := JObj []\<rparr>)) = JObj [] \<and>
   JObj [] \<noteq> JNull"
  by (simp add: parse_empty_object parse_number_text is_LatestReservation_def hydrate_def
      hydrate_try_def getItem_def stored_def empty_storage_def browser_def useReservation_def)

theorem corrupt_storage_ignored_witness:
  "items (stored ''not json'') STORAGE_KEY = Some ''not json'' \<and>
   JSON_parse (browser (server_answering ''Confirmed'') signed_in) ''not json'' = None \<and>
   hydrate (browser (server_answering ''Confirmed'') signed_in)
     (startup ''2026-01-06'' (stored ''not json''))
     = Inr (startup ''2026-01-06'' (stored ''not json'')) \<and>
   useReservation (startup ''2026-01-06'' (stored ''not json'')) = JNull \<and>
   useReservation (render_provider (startup ''2026-01-06'' (stored ''not json''))) = JNull"
proof -
  let ?env = "browser (server_answering ''Confirmed'') signed_in"
  have a: "items (stored ''not json'') STORAGE_KEY = Some ''not json''"
    by (simp add: stored_def)
  have b: "JSON_parse ?env ''not json'' = None"
    by (simp add: browser_def parse_not_json)
  from corrupt_storage_ignored [OF a b, of "''2026-01-06''"] a b show ?thesis
    by blast
qed

section \<open>The handoff from the map\<close>

lemma same_state_refl: "same_state loc loc"
  by (simp add: same_state_def split: jsval.splits)

lemma autofill_keeps:
  "autofill r p = Inr q \<Longrightarrow> stationId q = stationId p \<and> stations q = stations p \<and>
     stations_ref q = stations_ref p"
  by (auto simp: autofill_def split: sum.splits if_splits)

lemma commit_keeps:
  assumes "prefill_deps h = Some loc" "commit_effects loc (h, p) = Inr (h', p')"
  shows "prefill_deps h' = Some loc \<and> stationId p' = stationId p \<and> stations p' = stations p"
  using assms autofill_keeps [of p p p']
  by (auto simp: commit_effects_def Let_def same_state_refl split: if_splits sum.splits)

lemma commit_ignores_payload:
  assumes "prefill_deps h = Some loc"
  shows "commit_effects loc (h, p) =
           (let h' = \<lparr>prefill_deps = Some loc, autofill_deps = Some (stationId p, stations_ref p)\<rparr>
            in if autofill_deps h = Some (stationId p, stations_ref p) then Inr (h', p)
               else (case autofill p p of Inl e \<Rightarrow> Inl e | Inr q \<Rightarrow> Inr (h', q)))"
  using assms
  by (auto simp: commit_effects_def Let_def same_state_refl split: option.splits)

lemma find_station_mem: "find_station xs v = Inr st \<Longrightarrow> truthy st \<Longrightarrow> st \<in> set xs"
  by (induction xs) (auto split: sum.splits if_splits)

lemma commit_demand:
  assumes "prefill_deps h = Some loc" "commit_effects loc (h, p) = Inr (h', p')"
  shows "predictedDemand p' = predictedDemand p \<or>
         (\<exists>st \<in> set (stations p). predictedDemand p' = opt_prop st ''demand_level'')"
  using assms find_station_mem [of "stations p" "stationId p"]
  by (auto simp: commit_ignores_payload autofill_def Let_def split: if_splits sum.splits)

lemma interaction_keeps:
  "prefill_deps h = Some loc \<Longrightarrow> interaction loc es (h, p) = Inr (h', p') \<Longrightarrow>
   prefill_deps h' = Some loc \<and> stationId p' = last (stationId p # selections es) \<and>
   stations p' = last (stations p # catalogs es) \<and>
   (predictedDemand p' = predictedDemand p \<or>
    (\<exists>xs \<in> set (stations p # catalogs es). \<exists>st \<in> set xs.
        predictedDemand p' = opt_prop st ''demand_level''))"
proof (induction es arbitrary: h p)
  case Nil
  then show ?case by simp
next
  case (Cons e es)
  show ?case
  proof (cases e)
    case (Select v)
    with Cons.prems have "interaction loc es (h, p\<lparr>stationId := v\<rparr>) = Inr (h', p')"
      by (simp add: select_station_def)
    from Cons.IH [OF Cons.prems(1) this] Select show ?thesis by simp
  next
    case (Loaded xs)
    with Cons.prems
    have "interaction loc es (h, p\<lparr>stations := xs, stations_ref := Suc (stations_ref p)\<rparr>)
            = Inr (h', p')"
      by (simp add: stations_loaded_def)
    from Cons.IH [OF Cons.prems(1) this] Loaded show ?thesis by auto
  next
    case Render
    with Cons.prems obtain h1 p1 where c: "commit_effects loc (h, p) = Inr (h1, p1)"
      and i: "interaction loc es (h1, p1) = Inr (h', p')"
      by (auto split: sum.splits)
    from commit_keeps [OF Cons.prems(1) c]
    have k: "prefill_deps h1 = Some loc" "stationId p1 = stationId p" "stations p1 = stations p"
      by simp_all
    from Cons.IH [OF k(1) i] k(2,3) commit_demand [OF Cons.prems(1) c] Render show ?thesis
      by auto
  qed
qed

lemma find_station_first:
  "list_all (has_other_id v) pre \<Longrightarrow> has_station_id v st \<Longrightarrow>
   find_station (pre @ st # post) v = Inr st"
  by (induction pre) (auto simp: has_other_id_def has_station_id_def split: sum.splits)

lemma find_station_is_first:
  "find_station xs v = Inr st \<Longrightarrow> truthy st \<Longrightarrow>
   \<exists>pre post. xs = pre @ st # post \<and> list_all (has_other_id v) pre \<and> has_station_id v st"
proof (induction xs)
  case Nil
  then show ?case by simp
next
  case (Cons s ss)
  from Cons.prems(1) obtain u where u: "read_prop s ''station_id'' = Inr u"
    by (auto split: sum.splits)
  show ?case
  proof (cases "strict_eq u v")
    case True
    with Cons.prems(1) u have "s = st" by simp
    with True u have "s # ss = [] @ st # ss \<and> list_all (has_other_id v) [] \<and> has_station_id v st"
      by (simp add: has_station_id_def)
    then show ?thesis by blast
  next
    case False
    with Cons.prems(1) u have "find_station ss v = Inr st" by simp
    from Cons.IH [OF this Cons.prems(2)] obtain pre post
      where p: "ss = pre @ st # post" "list_all (has_other_id v) pre" "has_station_id v st"
      by blast
    with False u have "s # ss = (s # pre) @ st # post \<and> list_all (has_other_id v) (s # pre) \<and>
        has_station_id v st"
      by (simp add: has_other_id_def)
    then show ?thesis by blast
  qed
qed

lemma interaction_append:
  "interaction loc (es @ es') hp =
     (case interaction loc es hp of Inl e \<Rightarrow> Inl e | Inr hp' \<Rightarrow> interaction loc es' hp')"
  by (induction loc es hp rule: interaction.induct) (auto split: sum.splits)

lemma commit_demand_first:
  assumes "prefill_deps h = Some loc" "commit_effects loc (h, p) = Inr (h', p')"
  shows "predictedDemand p' = predictedDemand p \<or>
         demand_of_first (stations p) (stationId p) (predictedDemand p')"
proof -
  have "\<And>st. find_station (stations p) (stationId p) = Inr st \<Longrightarrow> truthy st \<Longrightarrow>
          demand_of_first (stations p) (stationId p) (opt_prop st ''demand_level'')"
    using find_station_is_first unfolding demand_of_first_def by blast
  with assms show ?thesis
    by (auto simp: commit_ignores_payload autofill_def Let_def split: if_splits sum.splits)
qed

lemma interaction_demand:
  "prefill_deps h = Some loc \<Longrightarrow> interaction loc es (h, p) = Inr (h', p') \<Longrightarrow>
   predictedDemand p' = predictedDemand p \<or>
   (\<exists>xs \<in> set (stations p # catalogs es). \<exists>v \<in> set (stationId p # selections es).
      demand_of_first xs v (predictedDemand p'))"
proof (induction es arbitrary: h p)
  case Nil
  then show ?case by simp
next
  case (Cons e es)
  show ?case
  proof (cases e)
    case (Select v)
    with Cons.prems have "interaction loc es (h, p\<lparr>stationId := v\<rparr>) = Inr (h', p')"
      by (simp add: select_station_def)
    from Cons.IH [OF Cons.prems(1) this] Select show ?thesis by auto
  next
    case (Loaded xs)
    with Cons.prems
    have "interaction loc es (h, p\<lparr>stations := xs, stations_ref := Suc (stations_ref p)\<rparr>)
            = Inr (h', p')"
      by (simp add: stations_loaded_def)
    from Cons.IH [OF Cons.prems(1) this] Loaded show ?thesis by auto
  next
    case Render
    with Cons.prems obtain h1 p1 where c: "commit_effects loc (h, p) = Inr (h1, p1)"
      and i: "interaction loc es (h1, p1) = Inr (h', p')"
      by (auto split: sum.splits)
    from commit_keeps [OF Cons.prems(1) c]
    have k: "prefill_deps h1 = Some loc" "stationId p1 = stationId p" "stations p1 = stations p"
      by simp_all
    from Cons.IH [OF k(1) i] k(2,3) commit_demand_first [OF Cons.prems(1) c] Render show ?thesis
      by auto
  qed
qed


lemma select_then_render:
  assumes "prefill_deps h = Some loc"
      and "autofill_deps h \<noteq> Some (v, stations_ref p)"
      and "stations p = pre @ st # post" and "list_all (has_other_id v) pre"
      and "has_station_id v st" and "truthy st"
  shows "interaction loc [Select v, Render] (h, p)
           = Inr (\<lparr>prefill_deps = Some loc, autofill_deps = Some (v, stations_ref p)\<rparr>,
                  p\<lparr>stationId := v, predictedDemand := opt_prop st ''demand_level''\<rparr>)"
  using assms find_station_first [OF assms(4,5), of post]
  by (simp add: select_station_def commit_ignores_payload autofill_def Let_def)

text \<open>
  C8. Let the navigation state be what the map hands over for a station, with a station
  id and a demand level. When the reservation page mounts, the effect seeds the station
  and the demand from it. In every later sequence of station choices, catalog arrivals
  and renders at the same location the effect does not run again: the station is the last
  one chosen, and the demand is what it was or the demand level of the first entry, in a
  catalog that the page has held, whose station id is a station that was selected. And
  whatever has happened since the mount, choosing a station and rendering sets the demand
  to the demand level of the first entry of the held catalog that has the chosen id.
\<close>

theorem handoff_one_shot:
  assumes "handoff station = Inr (nav_state loc)"
      and "truthy (opt_prop station ''station_id'')"
      and "truthy (opt_prop station ''demand_level'')"
  shows "commit_effects loc (unmounted, initial_page today)
           = Inr (\<lparr>prefill_deps = Some loc, autofill_deps = Some (JStr [], 0)\<rparr>,
                  (initial_page today)\<lparr>stationId := opt_prop station ''station_id'',
                                        predictedDemand := opt_prop station ''demand_level''\<rparr>)
       \<and> (\<forall>es h p h' p'.
             prefill_deps h = Some loc \<and> interaction loc es (h, p) = Inr (h', p') \<longrightarrow>
             prefill_deps h' = Some loc \<and> stationId p' = last (stationId p # selections es) \<and>
             (predictedDemand p' = predictedDemand p \<or>
              (\<exists>xs \<in> set (stations p # catalogs es). \<exists>v \<in> set (stationId p # selections es).
                 \<exists>pre st post. xs = pre @ st # post \<and> list_all (has_other_id v) pre \<and>
                   has_station_id v st \<and> predictedDemand p' = opt_prop st ''demand_level'')))
       \<and> (\<forall>es h p h' p' v pre st post.
             prefill_deps h = Some loc \<and> interaction loc es (h, p) = Inr (h', p') \<and>
             autofill_deps h' \<noteq> Some (v, stations_ref p') \<and>
             stations p' = pre @ st # post \<and> list_all (has_other_id v) pre \<and>
             has_station_id v st \<and> truthy st \<longrightarrow>
             interaction loc (es @ [Select v, Render]) (h, p)
               = Inr (\<lparr>prefill_deps = Some loc, autofill_deps = Some (v, stations_ref p')\<rparr>,
                      p'\<lparr>stationId := v, predictedDemand := opt_prop st ''demand_level''\<rparr>))"
proof (intro conjI allI impI)
  from assms(1)
  have n: "nav_state loc = JObj [(''station_id'', opt_prop station ''station_id''),
                                 (''demand_level'', opt_prop station ''demand_level'')]"
    by (auto simp: handoff_def opt_prop_def split: sum.splits)
  show "commit_effects loc (unmounted, initial_page today)
           = Inr (\<lparr>prefill_deps = Some loc, autofill_deps = Some (JStr [], 0)\<rparr>,
                  (initial_page today)\<lparr>stationId := opt_prop station ''station_id'',
                                        predictedDemand := opt_prop station ''demand_level''\<rparr>)"
    using assms(2,3)
    by (simp add: commit_effects_def unmounted_def Let_def prefill_def n opt_prop_JObj autofill_def
        initial_page_def)
next
  fix es and h h' :: hooks and p p' :: page
  assume a: "prefill_deps h = Some loc \<and> interaction loc es (h, p) = Inr (h', p')"
  then show "prefill_deps h' = Some loc" "stationId p' = last (stationId p # selections es)"
    using interaction_keeps [of h loc es p h' p'] by blast+
  from a interaction_demand [of h loc es p h' p']
  show "predictedDemand p' = predictedDemand p \<or>
        (\<exists>xs \<in> set (stations p # catalogs es). \<exists>v \<in> set (stationId p # selections es).
           \<exists>pre st post. xs = pre @ st # post \<and> list_all (has_other_id v) pre \<and>
             has_station_id v st \<and> predictedDemand p' = opt_prop st ''demand_level'')"
    unfolding demand_of_first_def by blast
next
  fix es and h h' :: hooks and p p' :: page and v pre st post
  assume a: "prefill_deps h = Some loc \<and> interaction loc es (h, p) = Inr (h', p') \<and>
             autofill_deps h' \<noteq> Some (v, stations_ref p') \<and>
             stations p' = pre @ st # post \<and> list_all (has_other_id v) pre \<and>
             has_station_id v st \<and> truthy st"
  then have k: "prefill_deps h' = Some loc"
    using interaction_keeps [of h loc es p h' p'] by blast
  from a have q: "autofill_deps h' \<noteq> Some (v, stations_ref p')" "stations p' = pre @ st # post"
    "list_all (has_other_id v) pre" "has_station_id v st" "truthy st"
    by blast+
  from select_then_render [OF k q] a show "interaction loc (es @ [Select v, Render]) (h, p)
               = Inr (\<lparr>prefill_deps = Some loc, autofill_deps = Some (v, stations_ref p')\<rparr>,
                      p'\<lparr>stationId := v, predictedDemand := opt_prop st ''demand_level''\<rparr>)"
    by (simp add: interaction_append)
qed

theorem handoff_one_shot_witness:
  "handoff one_station = Inr (nav_state from_map) \<and>
   truthy (opt_prop one_station ''station_id'') \<and> truthy (opt_prop one_station ''demand_level'') \<and>
   commit_effects from_map (unmounted, initial_page ''2026-01-05'') = Inr after_mount \<and>
   prefill_deps (fst after_mount) = Some from_map \<and>
   interaction from_map [Loaded [one_station, other_station, far_station], Render]
     (fst after_mount, snd after_mount) = Inr (mounted_hooks, mounted_page) \<and>
   stationId mounted_page
     = last (stationId (snd after_mount) #
             selections [Loaded [one_station, other_station, far_station], Render]) \<and>
   autofill_deps mounted_hooks \<noteq> Some (JStr ''S2'', stations_ref mounted_page) \<and>
   stations mounted_page = [one_station] @ other_station # [far_station] \<and>
   list_all (has_other_id (JStr ''S2'')) [one_station] \<and>
   has_station_id (JStr ''S2'') other_station \<and> truthy other_station \<and>
   interaction from_map
     ([Loaded [one_station, other_station, far_station], Render] @ [Select (JStr ''S2''), Render])
     (fst after_mount, snd after_mount)
     = Inr (\<lparr>prefill_deps = Some from_map, autofill_deps = Some (JStr ''S2'', 1)\<rparr>,
            mounted_page\<lparr>stationId := JStr ''S2'', predictedDemand := JStr ''Low''\<rparr>)"
proof -
  let ?es = "[Loaded [one_station, other_station, far_station], Render]"
  have h: "handoff one_station = Inr (nav_state from_map)"
    by (simp add: handoff_def one_station_def from_map_def opt_prop_JObj)
  have t: "truthy (opt_prop one_station ''station_id'')" "truthy (opt_prop one_station ''demand_level'')"
    "opt_prop one_station ''station_id'' = JStr ''S1''"
    "opt_prop one_station ''demand_level'' = JStr ''High''"
    "opt_prop other_station ''demand_level'' = JStr ''Low''"
    by (simp_all add: one_station_def other_station_def opt_prop_JObj)
  have d: "prefill_deps (fst after_mount) = Some from_map"
    "autofill_deps mounted_hooks \<noteq> Some (JStr ''S2'', stations_ref mounted_page)"
    "stations_ref mounted_page = 1"
    "stations mounted_page = [one_station] @ other_station # [far_station]"
    by (simp_all add: mounted_hooks_def mounted_page_def after_mount_def)
  have f: "list_all (has_other_id (JStr ''S2'')) [one_station]"
    "has_station_id (JStr ''S2'') other_station" "truthy other_station"
    by (simp_all add: has_other_id_def has_station_id_def one_station_def other_station_def)
  have i: "interaction from_map ?es (fst after_mount, snd after_mount)
             = Inr (mounted_hooks, mounted_page)"
    by (simp add: after_mount_def stations_loaded_def commit_ignores_payload autofill_def Let_def
        one_station_def other_station_def far_station_def opt_prop_JObj mounted_page_def
        mounted_hooks_def initial_page_def)
  note T = handoff_one_shot [OF h t(1,2), of "''2026-01-05''"]
  from T have 1: "commit_effects from_map (unmounted, initial_page ''2026-01-05'') = Inr after_mount"
    by (simp add: t after_mount_def)
  from T d(1) i
  have 2: "stationId mounted_page = last (stationId (snd after_mount) # selections ?es)"
    by blast
  from T d i f
  have "interaction from_map (?es @ [Select (JStr ''S2''), Render]) (fst after_mount, snd after_mount)
     = Inr (\<lparr>prefill_deps = Some from_map,
               autofill_deps = Some (JStr ''S2'', stations_ref mounted_page)\<rparr>,
            mounted_page\<lparr>stationId := JStr ''S2'',
                           predictedDemand := opt_prop other_station ''demand_level''\<rparr>)"
    by blast
  then have 3: "interaction from_map (?es @ [Select (JStr ''S2''), Render])
                  (fst after_mount, snd after_mount)
     = Inr (\<lparr>prefill_deps = Some from_map, autofill_deps = Some (JStr ''S2'', 1)\<rparr>,
            mounted_page\<lparr>stationId := JStr ''S2'', predictedDemand := JStr ''Low''\<rparr>)"
    by (simp only: t d(3))
  from h t(1,2) 1 d(1,2,4) i 2 f 3 show ?thesis by blast
qed

end
